theory Spec2Isabelle
  imports Complex_Main
begin

section \<open>Numbers\<close>

text \<open>
  The Python sources compute with \<^verbatim>\<open>float\<close>. The embedding reads every float as
  the real number it denotes and every operation as the exact operation on reals; the
  binary rounding error of IEEE doubles is not part of the model. The one exception is
  \<^verbatim>\<open>calculate_breakeven_score\<close>: its weighted sums of whole-number scores fall exactly
  on one-decimal ties, where the error of the double sum decides the returned value, so its
  arithmetic is modelled in double precision (see \<open>to_double\<close> below).

  \<^verbatim>\<open>round(x)\<close> and \<^verbatim>\<open>round(x, n)\<close> round half to even;
  \<^verbatim>\<open>int(x)\<close> truncates towards zero.
\<close>

definition py_round :: "real \<Rightarrow> int" where
  "py_round x =
     (let f = floor x; d = x - of_int f
      in if d < 1 / 2 then f
         else if 1 / 2 < d then f + 1
         else if even f then f else f + 1)"

definition py_round_digits :: "real \<Rightarrow> nat \<Rightarrow> real" where
  "py_round_digits x ndigits = of_int (py_round (x * 10 ^ ndigits)) / 10 ^ ndigits"

definition py_int :: "real \<Rightarrow> int" where
  "py_int x = (if 0 \<le> x then floor x else ceiling x)"

text \<open>
  IEEE double precision, for numbers in the normal range: \<open>expo x\<close> is the binary
  exponent of a positive \<open>x\<close>, the integer \<open>e\<close> with \<open>2 ^ e \<le> x < 2 ^ (e + 1)\<close>, and
  \<open>to_double x\<close> is the double nearest to \<open>x\<close>, a multiple of \<open>2 ^ (e - 52)\<close> with a
  significand of 53 bits, ties going to the even significand. Overflow, subnormal numbers,
  infinities and NaN are not modelled.
\<close>

function expo :: "real \<Rightarrow> int" where
  "expo x =
     (if x \<le> 0 then 0
      else if 2 \<le> x then expo (x / 2) + 1
      else if x < 1 then expo (x * 2) - 1
      else 0)"
  by pat_completeness auto
termination
proof (relation "measure (\<lambda>x. nat \<lfloor>\<bar>log 2 x\<bar>\<rfloor> * 2 + (if x < 1 then 1 else 0))")
  show "wf (measure (\<lambda>x. nat \<lfloor>\<bar>log 2 x\<bar>\<rfloor> * 2 + (if x < 1 then 1 else 0)))"
    by simp
next
  fix x :: real
  assume "\<not> x \<le> 0" and x: "2 \<le> x"
  then have l: "log 2 (x / 2) = log 2 x - 1" and "1 \<le> log 2 x"
    by (simp_all add: log_divide le_log_iff)
  then have "\<lfloor>\<bar>log 2 (x / 2)\<bar>\<rfloor> = \<lfloor>\<bar>log 2 x\<bar>\<rfloor> - 1" and "1 \<le> \<lfloor>\<bar>log 2 x\<bar>\<rfloor>"
    by (simp_all add: le_floor_iff)
  with x show "(x / 2, x) \<in> measure (\<lambda>x. nat \<lfloor>\<bar>log 2 x\<bar>\<rfloor> * 2 + (if x < 1 then 1 else 0))"
    by simp
next
  fix x :: real
  assume pos: "\<not> x \<le> 0" and "\<not> 2 \<le> x" and x: "x < 1"
  then have l: "log 2 (x * 2) = log 2 x + 1" and neg: "log 2 x < 0"
    by (simp_all add: log_mult)
  show "(x * 2, x) \<in> measure (\<lambda>x. nat \<lfloor>\<bar>log 2 x\<bar>\<rfloor> * 2 + (if x < 1 then 1 else 0))"
  proof (cases "x * 2 < 1")
    case True
    then have "log 2 (x * 2) < 0"
      using pos by simp
    with l neg have "\<bar>log 2 (x * 2)\<bar> = \<bar>log 2 x\<bar> - 1" and "1 \<le> \<bar>log 2 x\<bar>"
      by simp_all
    then have "\<lfloor>\<bar>log 2 (x * 2)\<bar>\<rfloor> = \<lfloor>\<bar>log 2 x\<bar>\<rfloor> - 1" and "1 \<le> \<lfloor>\<bar>log 2 x\<bar>\<rfloor>"
      by (simp_all add: le_floor_iff)
    with True x show ?thesis
      by simp
  next
    case False
    then have "0 \<le> log 2 (x * 2)"
      using pos by simp
    moreover from x pos have "log 2 (x * 2) < 1"
      by (simp add: log_less_iff)
    ultimately have "\<lfloor>\<bar>log 2 (x * 2)\<bar>\<rfloor> = 0"
      by (simp add: floor_eq_iff)
    with False x show ?thesis
      by simp
  qed
qed

declare expo.simps [simp del]

definition to_double :: "real \<Rightarrow> real" where
  "to_double x =
     (if x = 0 then 0
      else (let ulp = 2 powi (expo \<bar>x\<bar> - 52)
            in of_int (py_round (x / ulp)) * ulp))"

text \<open>
  \<^verbatim>\<open>sum(xs)\<close> over doubles: the additions run from the left, from 0, each rounded to a
  double.
\<close>

definition double_sum :: "real list \<Rightarrow> real" where
  "double_sum xs = foldl (\<lambda>acc x. to_double (acc + x)) 0 xs"

definition dict_get :: "('k \<rightharpoonup> 'v) \<Rightarrow> 'k \<Rightarrow> 'v \<Rightarrow> 'v" where
  "dict_get d k dflt = (case d k of None \<Rightarrow> dflt | Some v \<Rightarrow> v)"

section \<open>Price model: \<^verbatim>\<open>afl_complete_processor.py\<close>\<close>

text \<open>The table \<^verbatim>\<open>self.magic_numbers\<close> of \<^verbatim>\<open>AFLCompleteProcessor\<close>.\<close>

definition magic_numbers :: "int \<rightharpoonup> real" where
  "magic_numbers = map_of
     [(0, 10250), (1, 9840), (2, 9783), (3, 9801), (4, 9719), (5, 9747), (6, 9869),
      (7, 9881), (8, 9928), (9, 9839), (10, 9888), (11, 9821), (12, 9822), (13, 9765),
      (14, 9749), (15, 9788), (16, 9875), (17, 9756), (18, 9748), (19, 9817),
      (20, 9755), (21, 9734), (22, 9740), (23, 9736)]"

text \<open>\<^verbatim>\<open>valid_scores = [s for s in scores if s > 0]\<close>\<close>

definition valid_scores_of :: "real list \<Rightarrow> real list" where
  "valid_scores_of scores = filter (\<lambda>s. 0 < s) scores"

text \<open>
  \<^verbatim>\<open>while len(valid_scores) < 5: valid_scores.append(avg_score)\<close>, the average
  computed once before the loop.
\<close>

function pad_valid_scores :: "real \<Rightarrow> real list \<Rightarrow> real list" where
  "pad_valid_scores avg_score valid_scores =
     (if length valid_scores < 5
      then pad_valid_scores avg_score (valid_scores @ [avg_score])
      else valid_scores)"
  by pat_completeness auto
termination
  by (relation "measure (\<lambda>(avg_score, valid_scores). 5 - length valid_scores)") auto

declare pad_valid_scores.simps [simp del]

text \<open>
  Lines 271 to 279 of \<^verbatim>\<open>calculate_price_change\<close>: the list the weighted sum reads.
  It is reached only with at least three valid scores, so the division is never by zero.
\<close>

definition price_window :: "real list \<Rightarrow> real list" where
  "price_window valid_scores =
     (if length valid_scores < 5
      then (let avg_score = sum_list valid_scores / real (length valid_scores)
            in pad_valid_scores avg_score valid_scores)
      else if 5 < length valid_scores then take 5 valid_scores
      else valid_scores)"

definition price_weighted_sum :: "real list \<Rightarrow> real" where
  "price_weighted_sum w =
     0.083 * (w ! 0) + 0.067 * (w ! 1) + 0.050 * (w ! 2) + 0.033 * (w ! 3) + 0.017 * (w ! 4)"

definition calculate_price_change :: "real \<Rightarrow> real list \<Rightarrow> int \<Rightarrow> real" where
  "calculate_price_change old_price scores round_num =
     (let valid_scores = valid_scores_of scores
      in if length valid_scores < 3 then old_price
         else (let window = price_window valid_scores;
                   weighted_sum = price_weighted_sum window;
                   magic_number = dict_get magic_numbers round_num 9736;
                   new_price = 0.75 * old_price + magic_number * weighted_sum
               in py_round_digits new_price 0))"

definition calculate_disposals :: "real \<Rightarrow> real \<Rightarrow> real" where
  "calculate_disposals kicks handballs = kicks + handballs"

section \<open>Break-even pricing: \<^verbatim>\<open>correct_breakeven_formula.py\<close>\<close>

text \<open>The constants set in \<^verbatim>\<open>BreakEvenPricingProcessor.__init__\<close>.\<close>

definition round_weights :: "real list" where
  "round_weights = [0.083, 0.067, 0.050, 0.033, 0.017]"

definition be_magic_numbers :: "int \<rightharpoonup> real" where
  "be_magic_numbers = map_of [(23, 9736), (22, 9750), (21, 9800)]"

definition low_price_threshold :: real where
  "low_price_threshold = 300000"

definition high_price_threshold :: real where
  "high_price_threshold = 1300000"

definition price_per_point :: real where
  "price_per_point = 300"

definition protection_threshold :: real where
  "protection_threshold = 10"

text \<open>
  \<^verbatim>\<open>while len(scores) < 5: avg_score = sum(scores) / len(scores); scores.append(avg_score)\<close>:
  here the average is recomputed in every iteration. The caller guards the loop with
  \<^verbatim>\<open>len(recent_scores) < 3\<close>, so the list is never empty when it runs. The loop is
  given twice: \<open>pad_scores\<close> over the reals, for the statement about the entries of the
  window, and \<open>pad_scores_double\<close> in double precision, for the value returned.
\<close>

function pad_scores :: "real list \<Rightarrow> real list" where
  "pad_scores scores =
     (if length scores < 5
      then pad_scores (scores @ [sum_list scores / real (length scores)])
      else scores)"
  by pat_completeness auto
termination
  by (relation "measure (\<lambda>scores. 5 - length scores)") auto

declare pad_scores.simps [simp del]

function pad_scores_double :: "real list \<Rightarrow> real list" where
  "pad_scores_double scores =
     (if length scores < 5
      then pad_scores_double
             (scores @ [to_double (double_sum scores / real (length scores))])
      else scores)"
  by pat_completeness auto
termination
  by (relation "measure (\<lambda>scores. 5 - length scores)") auto

declare pad_scores_double.simps [simp del]

text \<open>
  \<^verbatim>\<open>zip(scores, self.round_weights)\<close> stops at the shorter list: the scores that
  reach the weighted sum are the first components of the zipped pairs.
\<close>

definition breakeven_window :: "real list \<Rightarrow> real list" where
  "breakeven_window recent_scores = map fst (zip (pad_scores recent_scores) round_weights)"

text \<open>
  Lines 39 to 71, in double precision. The literals of \<^verbatim>\<open>self.round_weights\<close> denote their
  nearest doubles; each product of line 54 is rounded, and \<^verbatim>\<open>sum\<close> rounds each
  addition. \<^verbatim>\<open>round(x, 1)\<close> rounds the exact value of the double \<open>x\<close> to the nearest
  tenth, half to even; the double nearest to that tenth, which Python returns and prints as
  the tenth, is read as the tenth.
\<close>

definition calculate_breakeven_score :: "real \<Rightarrow> real list \<Rightarrow> int \<Rightarrow> real" where
  "calculate_breakeven_score current_price recent_scores round_num =
     (if length recent_scores < 3 then 0
      else (let scores = pad_scores_double recent_scores;
                weighted_avg = double_sum (map (\<lambda>(score, weight). to_double (score * weight))
                                               (zip scores (map to_double round_weights)));
                magic_number = dict_get be_magic_numbers round_num 9736;
                price_factor = to_double (current_price / 600000);
                adjusted_magic = to_double (magic_number * price_factor);
                breakeven_score = weighted_avg
            in py_round_digits breakeven_score 1))"

definition calculate_price_change_from_breakeven :: "real \<Rightarrow> real \<Rightarrow> real \<Rightarrow> real" where
  "calculate_price_change_from_breakeven current_price actual_score breakeven_score =
     (let score_difference = actual_score - breakeven_score;
          base_change = score_difference * price_per_point;
          adjustment_factor =
            (if current_price < low_price_threshold
             then (if 0 < base_change then 1.4 else 0.7)
             else if high_price_threshold < current_price
             then (if 0 < base_change then 0.6 else 1.2)
             else 1.0);
          adjusted_change = base_change * adjustment_factor;
          adjusted_change =
            (if \<bar>score_difference\<bar> \<le> protection_threshold
             then (if \<bar>adjusted_change\<bar> < 15000 then 0 else adjusted_change)
             else adjusted_change);
          new_price = current_price + adjusted_change;
          new_price = max new_price 200000
      in py_round_digits new_price 0)"

text \<open>
  Named for the statements below: the arithmetic mean the two padding loops compute, and
  the behaviour the specification ascribes to the break-even functions.
\<close>

definition mean_of :: "real list \<Rightarrow> real" where
  "mean_of xs = sum_list xs / real (length xs)"

text \<open>
  Named for the statements below: the mean line 50 computes, the scores that reach the
  weighted sum of line 54, and that sum for a window of five scores.
\<close>

definition double_mean :: "real list \<Rightarrow> real" where
  "double_mean xs = to_double (double_sum xs / real (length xs))"

definition double_window :: "real list \<Rightarrow> real list" where
  "double_window recent_scores =
     map fst (zip (pad_scores_double recent_scores) (map to_double round_weights))"



text \<open>
  Following the specification's words: the tiered, protected change of
  \<^verbatim>\<open>priceChangeFromBreakEven\<close>, a rise being a positive and a drop a negative base
  change.
\<close>

definition spec_adjusted_change :: "real \<Rightarrow> real \<Rightarrow> real \<Rightarrow> real" where
  "spec_adjusted_change current_price actual_score breakeven_score =
     (let base_change = (actual_score - breakeven_score) * 300;
          factor =
            (if current_price < 300000
             then (if 0 < base_change then 1.4 else if base_change < 0 then 0.7 else 1)
             else if 1300000 < current_price
             then (if 0 < base_change then 0.6 else if base_change < 0 then 1.2 else 1)
             else 1);
          adjusted = base_change * factor
      in if \<bar>actual_score - breakeven_score\<bar> \<le> 10 \<and> \<bar>adjusted\<bar> < 15000 then 0 else adjusted)"

section \<open>Defence versus position: \<^verbatim>\<open>dvp_analysis_1760666088962.py\<close>\<close>

datatype py_error = ZeroDivisionError

datatype position_group = Forward | Midfielder | Defender | Ruck

text \<open>
  \<^verbatim>\<open>self.team_defensive_stats\<close>, as \<^verbatim>\<open>calculate_team_defense_ratings\<close> leaves it:
  a dictionary from team to a dictionary that has an entry for each of the four position
  groups. The association list keeps the dictionary's insertion order, which the stable
  sort below observes; its keys are distinct.
\<close>

record position_stats =
  avg_points_allowed :: real
  sample_size :: nat

type_synonym team_defensive_stats = "(string \<times> (position_group \<Rightarrow> position_stats)) list"

text \<open>
  An entry of \<^verbatim>\<open>self.team_dvp_ratings[team][position]\<close>. The nested dictionary is
  read as one map from the pair of its two keys.
\<close>

record team_rating =
  rating :: int
  rating_avg_points_allowed :: real
  rank :: nat

type_synonym team_dvp_ratings = "string \<times> position_group \<rightharpoonup> team_rating"

text \<open>Lines 117 to 120: the teams with a sample of at least three, with their averages.\<close>

definition team_avgs_of :: "team_defensive_stats \<Rightarrow> position_group \<Rightarrow> (string \<times> real) list" where
  "team_avgs_of stats position =
     map (\<lambda>(team, st). (team, avg_points_allowed (st position)))
       (filter (\<lambda>(team, st). 3 \<le> sample_size (st position)) stats)"

text \<open>
  Line 134: \<^verbatim>\<open>max(1, min(10, int((i / (len(team_avgs) - 1)) * 9) + 1))\<close>. The division
  raises \<^verbatim>\<open>ZeroDivisionError\<close> when the list has one element.
\<close>

definition rank_to_rating :: "nat \<Rightarrow> nat \<Rightarrow> py_error + int" where
  "rank_to_rating i n =
     (if int n - 1 = 0 then Inl ZeroDivisionError
      else Inr (max 1 (min 10 (py_int ((real i / real_of_int (int n - 1)) * 9) + 1))))"

text \<open>The loop over \<^verbatim>\<open>enumerate(team_avgs)\<close>, lines 129 to 139.\<close>

fun rate_teams ::
  "position_group \<Rightarrow> nat \<Rightarrow> nat \<Rightarrow> (string \<times> real) list \<Rightarrow> team_dvp_ratings \<Rightarrow>
   py_error + team_dvp_ratings" where
  "rate_teams position n i [] ratings = Inr ratings"
| "rate_teams position n i ((team, avg_points) # rest) ratings =
     (case rank_to_rating i n of
        Inl e \<Rightarrow> Inl e
      | Inr r \<Rightarrow>
          rate_teams position n (Suc i) rest
            (ratings((team, position) \<mapsto>
               \<lparr>rating = r, rating_avg_points_allowed = avg_points, rank = i + 1\<rparr>)))"

text \<open>
  The loop over the four position groups, lines 115 to 139. \<^verbatim>\<open>list.sort\<close> with a
  key is stable, as \<^const>\<open>sort_key\<close> is.
\<close>

fun rate_positions ::
  "team_defensive_stats \<Rightarrow> position_group list \<Rightarrow> team_dvp_ratings \<Rightarrow>
   py_error + team_dvp_ratings" where
  "rate_positions stats [] ratings = Inr ratings"
| "rate_positions stats (position # positions) ratings =
     (let team_avgs = team_avgs_of stats position
      in if team_avgs = [] then rate_positions stats positions ratings
         else (let team_avgs = sort_key snd team_avgs
               in case rate_teams position (length team_avgs) 0 team_avgs ratings of
                    Inl e \<Rightarrow> Inl e
                  | Inr ratings' \<Rightarrow> rate_positions stats positions ratings'))"

definition create_dvp_team_ratings :: "team_defensive_stats \<Rightarrow> py_error + team_dvp_ratings" where
  "create_dvp_team_ratings stats =
     rate_positions stats [Forward, Midfielder, Defender, Ruck] Map.empty"

text \<open>The rating a run gives a team for a position group, if the run returns and has one.\<close>

definition team_rating_of ::
  "py_error + team_dvp_ratings \<Rightarrow> string \<Rightarrow> position_group \<Rightarrow> int option" where
  "team_rating_of result team position =
     (case result of
        Inl e \<Rightarrow> None
      | Inr ratings \<Rightarrow> map_option rating (ratings (team, position)))"

text \<open>
  Following the specification's words: the rating of the team at sorted index \<open>i\<close> of
  \<open>n\<close> eligible teams, rounding and defined as 1 for a single team.
\<close>

definition spec_team_rating :: "nat \<Rightarrow> nat \<Rightarrow> int" where
  "spec_team_rating i n =
     (if n = 1 then 1
      else max 1 (min 10 (py_round ((real i / real (n - 1)) * 9) + 1)))"

text \<open>
  A player's row of a matchup file: the name, the average, the games played, and the other
  columns in the row's order. A column's value is the empty string, a value that
  \<^verbatim>\<open>float\<close> converts, or a value on which \<^verbatim>\<open>float\<close> raises (the row skips it).
\<close>

datatype cell = Blank | Val real | Junk

record player_row =
  PLAYER :: string
  AVG :: real
  GM :: real
  columns :: "(string \<times> cell) list"

record player_matchup =
  matchup_rating :: real
  avg_points :: real
  games_played :: real
  consistency :: real
  matchup_position :: "position_group option"

type_synonym player_dvp_ratings = "string \<times> string \<rightharpoonup> player_matchup"

definition startswith :: "string \<Rightarrow> string \<Rightarrow> bool" where
  "startswith s p = (take (length p) s = p)"

text \<open>Lines 162 to 169: the scores of the columns named after a season and a round.\<close>

fun game_scores_of :: "(string \<times> cell) list \<Rightarrow> real list" where
  "game_scores_of [] = []"
| "game_scores_of ((key, value) # rest) =
     (if (startswith key ''2025R'' \<or> startswith key ''2024R'' \<or>
          startswith key ''2023R'' \<or> startswith key ''2022R'') \<and> value \<noteq> Blank
      then (case value of
              Val score \<Rightarrow> score # game_scores_of rest
            | _ \<Rightarrow> game_scores_of rest)
      else game_scores_of rest)"

definition np_mean :: "real list \<Rightarrow> real" where
  "np_mean xs = sum_list xs / real (length xs)"

text \<open>\<^verbatim>\<open>np.std\<close>: the population standard deviation.\<close>

definition np_std :: "real list \<Rightarrow> real" where
  "np_std xs = sqrt (np_mean (map (\<lambda>x. \<bar>x - np_mean xs\<bar> ^ 2) xs))"

text \<open>Lines 171 to 176.\<close>

definition consistency_of :: "real list \<Rightarrow> real" where
  "consistency_of game_scores =
     (if game_scores \<noteq> [] \<and> 2 \<le> length game_scores
      then (let mean_score = np_mean game_scores;
                std_score = np_std game_scores;
                cv = (if 0 < mean_score then std_score / mean_score else 0)
            in max 0 (1 - cv / 0.5))
      else 0)"

text \<open>
  The body of the innermost loop of \<^verbatim>\<open>calculate_player_dvp_ratings\<close>, lines 153 to
  199; \<open>None\<close> is the \<^verbatim>\<open>continue\<close> of line 159. \<open>player_to_position\<close> is the
  dictionary built by \<^verbatim>\<open>create_position_groups\<close>; a player it lacks has the position
  \<^verbatim>\<open>'Unknown'\<close>, here \<open>None\<close>.
\<close>

definition rate_player :: "(string \<rightharpoonup> position_group) \<Rightarrow> player_row \<Rightarrow> player_matchup option" where
  "rate_player player_to_position player =
     (let player_name = PLAYER player;
          avg_pts = AVG player;
          games = GM player
      in if avg_pts = 0 \<or> player_name = [] then None
         else (let consistency_score = consistency_of (game_scores_of (columns player));
                   base_rating = min 10 (max 1 (avg_pts / 10));
                   sample_adjustment = (if 0 < games then min 1.2 (games / 5) else 0.5);
                   consistency_adjustment = 0.8 + consistency_score * 0.4;
                   final_rating = base_rating * sample_adjustment * consistency_adjustment;
                   final_rating = max 1 (min 10 final_rating)
               in Some \<lparr>matchup_rating = py_round_digits final_rating 1,
                         avg_points = avg_pts,
                         games_played = games,
                         consistency = py_round_digits consistency_score 2,
                         matchup_position = player_to_position player_name\<rparr>))"

text \<open>
  The three nested loops. \<^verbatim>\<open>self.player_data\<close> maps a team to its matchups, a
  matchup maps an opponent to its data, and the data may lack the key
  \<^verbatim>\<open>'players'\<close> (\<open>None\<close>).
\<close>

fun rate_players ::
  "(string \<rightharpoonup> position_group) \<Rightarrow> string \<Rightarrow> player_row list \<Rightarrow> player_dvp_ratings \<Rightarrow>
   player_dvp_ratings" where
  "rate_players player_to_position opponent [] ratings = ratings"
| "rate_players player_to_position opponent (player # rest) ratings =
     (case rate_player player_to_position player of
        None \<Rightarrow> rate_players player_to_position opponent rest ratings
      | Some entry \<Rightarrow>
          rate_players player_to_position opponent rest
            (ratings((PLAYER player, opponent) \<mapsto> entry)))"

fun rate_matchups ::
  "(string \<rightharpoonup> position_group) \<Rightarrow> (string \<times> player_row list option) list \<Rightarrow>
   player_dvp_ratings \<Rightarrow> player_dvp_ratings" where
  "rate_matchups player_to_position [] ratings = ratings"
| "rate_matchups player_to_position ((opponent, opponent_data) # rest) ratings =
     (case opponent_data of
        None \<Rightarrow> rate_matchups player_to_position rest ratings
      | Some players \<Rightarrow>
          rate_matchups player_to_position rest
            (rate_players player_to_position opponent players ratings))"

fun rate_player_data ::
  "(string \<rightharpoonup> position_group) \<Rightarrow> (string \<times> (string \<times> player_row list option) list) list \<Rightarrow>
   player_dvp_ratings \<Rightarrow> player_dvp_ratings" where
  "rate_player_data player_to_position [] ratings = ratings"
| "rate_player_data player_to_position ((team, matchups) # rest) ratings =
     rate_player_data player_to_position rest
       (rate_matchups player_to_position matchups ratings)"

definition calculate_player_dvp_ratings ::
  "(string \<rightharpoonup> position_group) \<Rightarrow> (string \<times> (string \<times> player_row list option) list) list \<Rightarrow>
   player_dvp_ratings" where
  "calculate_player_dvp_ratings player_to_position player_data =
     rate_player_data player_to_position player_data Map.empty"

text \<open>
  Named for the statements below: the rating of line 134 when the division is defined, the
  entry stored for a team, and the ranges the ratings are shown to stay in.
\<close>

definition ratings_in_range :: "team_dvp_ratings \<Rightarrow> bool" where
  "ratings_in_range ratings = (\<forall>k t. ratings k = Some t \<longrightarrow> 1 \<le> rating t \<and> rating t \<le> 10)"

definition matchup_ok :: "player_matchup \<Rightarrow> bool" where
  "matchup_ok m = (1 \<le> matchup_rating m \<and> matchup_rating m \<le> 10 \<and>
     (\<exists>z :: int. matchup_rating m = of_int z / 10))"

definition matchups_ok :: "player_dvp_ratings \<Rightarrow> bool" where
  "matchups_ok ratings = (\<forall>k m. ratings k = Some m \<longrightarrow> matchup_ok m)"

definition truncated_rating :: "nat \<Rightarrow> nat \<Rightarrow> int" where
  "truncated_rating i n = max 1 (min 10 (floor ((real i / real (n - 1)) * 9) + 1))"

definition rated_entry :: "nat \<Rightarrow> nat \<Rightarrow> real \<Rightarrow> team_rating" where
  "rated_entry i n avg_pts =
     \<lparr>rating = truncated_rating i n, rating_avg_points_allowed = avg_pts, rank = i + 1\<rparr>"

text \<open>
  Example inputs. Six teams, five of them with a sample of at least three against forwards
  and none eligible for the other groups; a single eligible team; one matchup file with two
  rows.
\<close>

definition forward_only :: "real \<Rightarrow> nat \<Rightarrow> position_group \<Rightarrow> position_stats" where
  "forward_only avg_pts k position =
     (if position = Forward then \<lparr>avg_points_allowed = avg_pts, sample_size = k\<rparr>
      else \<lparr>avg_points_allowed = 0, sample_size = 0\<rparr>)"

definition six_teams :: team_defensive_stats where
  "six_teams =
     [(''Carlton'', forward_only 80 4), (''Geelong'', forward_only 60 3),
      (''Sydney'', forward_only 90 5), (''Essendon'', forward_only 70 3),
      (''Richmond'', forward_only 75 6), (''Fremantle'', forward_only 50 2)]"

definition one_team :: team_defensive_stats where
  "one_team = [(''Carlton'', forward_only 80 4), (''Fremantle'', forward_only 50 2)]"

definition daicos_row :: player_row where
  "daicos_row =
     \<lparr>PLAYER = ''Nick Daicos'', AVG = 112.5, GM = 4,
        columns = [(''2025R3'', Val 120), (''2024R10'', Val 104), (''2023R7'', Blank),
                   (''2022R1'', Junk), (''TOG'', Val 88)]\<rparr>"

definition unrated_row :: player_row where
  "unrated_row = \<lparr>PLAYER = ''Unrated'', AVG = 0, GM = 0, columns = []\<rparr>"

definition carlton_matchups :: "(string \<times> (string \<times> player_row list option) list) list" where
  "carlton_matchups =
     [(''Carlton'', [(''Geelong'', Some [daicos_row, unrated_row]), (''Sydney'', None)])]"

section \<open>Master statistics: \<^verbatim>\<open>scrapers/create_master_stats.py\<close>\<close>

subsection \<open>\<^verbatim>\<open>normalize_name\<close>\<close>

text \<open>
  Names are read as ASCII strings. \<^verbatim>\<open>\s\<close> and \<^verbatim>\<open>str.strip\<close> take the characters
  9 to 13, 28 to 31 and 32 for white space, \<^verbatim>\<open>\w\<close> letters, digits and the underscore;
  characters beyond ASCII are outside the model.
\<close>

definition is_space :: "char \<Rightarrow> bool" where
  "is_space c = (of_char c \<in> {9, 10, 11, 12, 13, 28, 29, 30, 31, 32 :: nat})"

definition is_word :: "char \<Rightarrow> bool" where
  "is_word c =
     (let n = of_char c :: nat
      in (48 \<le> n \<and> n \<le> 57) \<or> (65 \<le> n \<and> n \<le> 90) \<or> n = 95 \<or> (97 \<le> n \<and> n \<le> 122))"

definition lower_char :: "char \<Rightarrow> char" where
  "lower_char c =
     (let n = of_char c :: nat in if 65 \<le> n \<and> n \<le> 90 then char_of (n + 32) else c)"

definition strip :: "string \<Rightarrow> string" where
  "strip s = rev (dropWhile is_space (rev (dropWhile is_space s)))"

text \<open>\<^verbatim>\<open>re.sub(r'\s+', ' ', s)\<close>: every maximal run of white space becomes one blank.\<close>

function collapse_spaces :: "string \<Rightarrow> string" where
  "collapse_spaces [] = []"
| "collapse_spaces (c # cs) =
     (if is_space c then CHR '' '' # collapse_spaces (dropWhile is_space cs)
      else c # collapse_spaces cs)"
  by pat_completeness auto
termination
  by (relation "measure length") (auto simp: length_dropWhile_le less_Suc_eq_le)

text \<open>
  \<^verbatim>\<open>s.replace(old, new)\<close> for a non-empty \<open>old\<close>: the occurrences of \<open>old\<close> are
  replaced from the left, without overlap.
\<close>

function replace :: "string \<Rightarrow> string \<Rightarrow> string \<Rightarrow> string" where
  "replace s old new =
     (if s = [] \<or> old = [] then s
      else if take (length old) s = old then new @ replace (drop (length old) s) old new
      else hd s # replace (tl s) old new)"
  by pat_completeness auto
termination
  by (relation "measure (\<lambda>(s, old, new). length s)") (auto simp: Suc_le_eq)

declare replace.simps [simp del]

text \<open>
  Lines 29 to 48. The dictionary \<^verbatim>\<open>name_mappings\<close> is walked in insertion order. The
  first substitution has removed every full stop, so the replacement of \<^verbatim>\<open>'j.'\<close> never
  finds a match; it is kept as the source has it.
\<close>

definition normalize_name :: "string \<Rightarrow> string" where
  "normalize_name name =
     (if name = [] then []
      else (let normalized = filter (\<lambda>c. is_word c \<or> is_space c) (strip (map lower_char name));
                normalized = collapse_spaces normalized;
                normalized = replace normalized ''cd_i'' [];
                normalized = replace normalized ''jr'' [];
                normalized = replace normalized ''j.'' [];
                normalized = replace normalized ''j '' '' ''
            in strip normalized))"

subsection \<open>Profiles and sources\<close>

text \<open>
  A profile is a Python dictionary from field name to value; \<^verbatim>\<open>self.master_stats\<close>
  maps a normalised name to a profile. The values the consolidator stores are numbers,
  strings and the list of source identifiers.
\<close>

datatype pyval = Num real | Str string | StrList "string list"

type_synonym profile = "string \<rightharpoonup> pyval"

type_synonym master_stats = "string \<rightharpoonup> profile"

text \<open>
  A numeric field of an input record, as \<^verbatim>\<open>float(record.get(key, 0))\<close> sees it: the key
  is missing (the default 0 is converted), the value converts to a number, or
  \<^verbatim>\<open>float\<close> raises on it.
\<close>

datatype jfield = Missing | Number real | Unparsable

definition float_of :: "jfield \<Rightarrow> real option" where
  "float_of v = (case v of Missing \<Rightarrow> Some 0 | Number x \<Rightarrow> Some x | Unparsable \<Rightarrow> None)"

text \<open>
  A record of \<^verbatim>\<open>player_data.json\<close>; a missing name or text field reads as the empty
  string, a missing number as 0, as \<^verbatim>\<open>player.get\<close> with its defaults does.
\<close>

record base_player =
  base_name :: string
  base_team :: string
  base_position :: string
  base_avg :: real
  base_breakeven :: real
  base_projected_score :: real
  base_price :: real
  base_price_change :: real
  base_games :: real

text \<open>Lines 65 to 120: the profile the first source seeds, every field with its default.\<close>

definition base_profile :: "base_player \<Rightarrow> profile" where
  "base_profile player = map_of
     [(''name'', Str (base_name player)),
      (''team'', Str (base_team player)),
      (''position'', Str (base_position player)),
      (''average_points'', Num (base_avg player)),
      (''break_even'', Num (base_breakeven player)),
      (''projected_score'', Num (base_projected_score player)),
      (''price'', Num (base_price player)),
      (''price_change'', Num (base_price_change player)),
      (''games_played'', Num (base_games player)),
      (''kicks'', Num 0), (''handballs'', Num 0), (''disposals'', Num 0), (''marks'', Num 0),
      (''tackles'', Num 0), (''free_kicks_for'', Num 0), (''free_kicks_against'', Num 0),
      (''clearances'', Num 0), (''hitouts'', Num 0),
      (''cba_percentage'', Num 0), (''kick_ins'', Num 0), (''contested_marks'', Num 0),
      (''uncontested_marks'', Num 0), (''contested_disposals'', Num 0),
      (''uncontested_disposals'', Num 0), (''time_on_ground'', Num 0),
      (''last_score'', Num 0), (''last_3_average'', Num 0), (''last_5_average'', Num 0),
      (''total_points'', Num 0), (''standard_deviation'', Num 0), (''high_score'', Num 0),
      (''low_score'', Num 0), (''consistency_rating'', Num 0),
      (''opponent_difficulty'', Num 0), (''three_round_opponent_difficulty'', Num 0),
      (''points_per_minute'', Num 0), (''ownership_percentage'', Num 0),
      (''value_rating'', Str []), (''value_index'', Num 0),
      (''data_sources'', StrList [''player_data.json'']),
      (''last_updated'', Str ''2025-08-23'')]"

fun load_base_rows :: "base_player list \<Rightarrow> master_stats \<Rightarrow> master_stats" where
  "load_base_rows [] stats = stats"
| "load_base_rows (player # rest) stats =
     (if base_name player = [] then load_base_rows rest stats
      else load_base_rows rest
             (stats(normalize_name (base_name player) \<mapsto> base_profile player)))"

text \<open>
  \<^verbatim>\<open>load_base_player_data\<close> on the records of the file, starting from the empty
  dictionary of \<^verbatim>\<open>__init__\<close>.
\<close>

definition load_base_player_data :: "base_player list \<Rightarrow> master_stats" where
  "load_base_player_data players = load_base_rows players Map.empty"

text \<open>
  \<^verbatim>\<open>profile['data_sources'].append(source)\<close>; \<open>None\<close> when the key is missing or its
  value is not a list, where the statement raises.
\<close>

definition append_source :: "profile \<Rightarrow> string \<Rightarrow> profile option" where
  "append_source prof source =
     (case prof ''data_sources'' of
        Some (StrList sources) \<Rightarrow> Some (prof(''data_sources'' \<mapsto> StrList (sources @ [source])))
      | _ \<Rightarrow> None)"

subsection \<open>\<^verbatim>\<open>merge_fantasy_metrics\<close>\<close>

record metrics_row =
  metrics_name :: string
  own :: jfield
  con :: jfield
  ppm :: jfield

text \<open>
  The loop of lines 136 to 146. An exception leaves the loop for the handler of line 150,
  which only prints: the dictionary stays as the loop left it. The three conversions are
  evaluated before \<^verbatim>\<open>update\<close> stores anything.
\<close>

fun merge_metrics_rows :: "metrics_row list \<Rightarrow> master_stats \<Rightarrow> master_stats" where
  "merge_metrics_rows [] stats = stats"
| "merge_metrics_rows (player # rest) stats =
     (let name = normalize_name (metrics_name player)
      in case stats name of
           None \<Rightarrow> merge_metrics_rows rest stats
         | Some prof \<Rightarrow>
             (case float_of (own player) of
                None \<Rightarrow> stats
              | Some own_value \<Rightarrow>
             (case float_of (con player) of
                None \<Rightarrow> stats
              | Some con_value \<Rightarrow>
             (case float_of (ppm player) of
                None \<Rightarrow> stats
              | Some ppm_value \<Rightarrow>
                  (let updated = prof(''ownership_percentage'' \<mapsto> Num (own_value * 100),
                                     ''consistency_rating'' \<mapsto> Num (con_value * 100),
                                     ''points_per_minute'' \<mapsto> Num ppm_value)
                   in case append_source updated ''fantasy_metrics'' of
                        None \<Rightarrow> stats(name \<mapsto> updated)
                      | Some appended \<Rightarrow>
                          merge_metrics_rows rest (stats(name \<mapsto> appended)))))))"

text \<open>\<open>None\<close>: the file cannot be opened or parsed, and nothing is merged.\<close>

definition merge_fantasy_metrics :: "metrics_row list option \<Rightarrow> master_stats \<Rightarrow> master_stats" where
  "merge_fantasy_metrics metrics_data stats =
     (case metrics_data of None \<Rightarrow> stats | Some rows \<Rightarrow> merge_metrics_rows rows stats)"

subsection \<open>\<^verbatim>\<open>merge_csv_data\<close>\<close>

text \<open>
  A row of a CSV file: the \<^verbatim>\<open>Player\<close> column and the column the loop converts
  (\<^verbatim>\<open>CBA%\<close> or \<^verbatim>\<open>Kick-ins\<close>).
\<close>

record csv_row =
  Player :: string
  column_value :: jfield

text \<open>
  The loops of lines 246 to 251 and 264 to 269 are the same loop, for the field
  \<^verbatim>\<open>cba_percentage\<close> with the source \<^verbatim>\<open>csv_cba\<close> and for the field
  \<^verbatim>\<open>kick_ins\<close> with the source \<^verbatim>\<open>csv_kickins\<close>. The source is appended only if
  the profile does not list it yet.
\<close>

fun merge_csv_rows :: "string \<Rightarrow> string \<Rightarrow> csv_row list \<Rightarrow> master_stats \<Rightarrow> master_stats" where
  "merge_csv_rows field source [] stats = stats"
| "merge_csv_rows field source (row # rest) stats =
     (let name = normalize_name (Player row)
      in case stats name of
           None \<Rightarrow> merge_csv_rows field source rest stats
         | Some prof \<Rightarrow>
             (case float_of (column_value row) of
                None \<Rightarrow> stats
              | Some v \<Rightarrow>
                  (let updated = prof(field \<mapsto> Num v)
                   in case updated ''data_sources'' of
                        Some (StrList sources) \<Rightarrow>
                          (if source \<notin> set sources
                           then merge_csv_rows field source rest
                                  (stats(name \<mapsto>
                                     updated(''data_sources'' \<mapsto> StrList (sources @ [source]))))
                           else merge_csv_rows field source rest (stats(name \<mapsto> updated)))
                      | _ \<Rightarrow> stats(name \<mapsto> updated))))"

text \<open>
  \<open>None\<close>: no file matches the pattern, or the file cannot be read; that block is
  skipped.
\<close>

definition merge_csv_data ::
  "csv_row list option \<Rightarrow> csv_row list option \<Rightarrow> master_stats \<Rightarrow> master_stats" where
  "merge_csv_data cba_rows kickins_rows stats =
     (let stats = (case cba_rows of
                     None \<Rightarrow> stats
                   | Some rows \<Rightarrow> merge_csv_rows ''cba_percentage'' ''csv_cba'' rows stats)
      in case kickins_rows of
           None \<Rightarrow> stats
         | Some rows \<Rightarrow> merge_csv_rows ''kick_ins'' ''csv_kickins'' rows stats)"

text \<open>The list of sources of a player's profile, for the statements below.\<close>

definition data_sources_of :: "master_stats \<Rightarrow> string \<Rightarrow> string list option" where
  "data_sources_of stats name =
     (case stats name of
        None \<Rightarrow> None
      | Some prof \<Rightarrow> (case prof ''data_sources'' of Some (StrList sources) \<Rightarrow> Some sources | _ \<Rightarrow> None))"

text \<open>
  Named for the proofs about \<^const>\<open>merge_csv_rows\<close>: what one row stores in a profile,
  the pairs of name and value that a run of the loop stores before it ends or is left by an
  exception, and the run as the fold of these stores.
\<close>

definition has_sources :: "profile \<Rightarrow> bool" where
  "has_sources prof = (case prof ''data_sources'' of Some (StrList sources) \<Rightarrow> True | _ \<Rightarrow> False)"

definition store_value :: "string \<Rightarrow> string \<Rightarrow> real \<Rightarrow> profile \<Rightarrow> profile" where
  "store_value field source v prof =
     (let updated = prof(field \<mapsto> Num v)
      in case updated ''data_sources'' of
           Some (StrList sources) \<Rightarrow>
             (if source \<notin> set sources
              then updated(''data_sources'' \<mapsto> StrList (sources @ [source]))
              else updated)
         | _ \<Rightarrow> updated)"

fun csv_effect :: "master_stats \<Rightarrow> csv_row list \<Rightarrow> (string \<times> real) list" where
  "csv_effect stats [] = []"
| "csv_effect stats (row # rest) =
     (case stats (normalize_name (Player row)) of
        None \<Rightarrow> csv_effect stats rest
      | Some prof \<Rightarrow>
          (case float_of (column_value row) of
             None \<Rightarrow> []
           | Some v \<Rightarrow>
               (if has_sources prof
                then (normalize_name (Player row), v) # csv_effect stats rest
                else [(normalize_name (Player row), v)])))"

fun apply_stores ::
  "string \<Rightarrow> string \<Rightarrow> (string \<times> real) list \<Rightarrow> master_stats \<Rightarrow> master_stats" where
  "apply_stores field source [] stats = stats"
| "apply_stores field source ((name, v) # rest) stats =
     apply_stores field source rest
       (case stats name of
          None \<Rightarrow> stats
        | Some prof \<Rightarrow> stats(name \<mapsto> store_value field source v prof))"

fun last_value :: "(string \<times> real) list \<Rightarrow> string \<Rightarrow> real option" where
  "last_value [] name = None"
| "last_value ((n, v) # rest) name =
     (case last_value rest name of
        Some w \<Rightarrow> Some w
      | None \<Rightarrow> if n = name then Some v else None)"

definition absorbed :: "string \<Rightarrow> string \<Rightarrow> real \<Rightarrow> profile \<Rightarrow> bool" where
  "absorbed field source v prof =
     (prof field = Some (Num v) \<and>
      (case prof ''data_sources'' of Some (StrList sources) \<Rightarrow> source \<in> set sources | _ \<Rightarrow> True))"

definition rows_of :: "csv_row list option \<Rightarrow> csv_row list" where
  "rows_of file = (case file of None \<Rightarrow> [] | Some rows \<Rightarrow> rows)"

text \<open>Example inputs: one player in each source.\<close>

definition daicos_base :: base_player where
  "daicos_base =
     \<lparr>base_name = ''Nick Daicos'', base_team = ''Collingwood'', base_position = ''MID'',
        base_avg = 112.5, base_breakeven = 105, base_projected_score = 110,
        base_price = 1150000, base_price_change = 12000, base_games = 20\<rparr>"

definition daicos_metrics :: metrics_row where
  "daicos_metrics =
     \<lparr>metrics_name = ''Nick Daicos'', own = Number 0.45, con = Number 0.8, ppm = Number 1.1\<rparr>"

definition daicos_cba :: csv_row where
  "daicos_cba = \<lparr>Player = ''Nick Daicos'', column_value = Number 62.5\<rparr>"

section \<open>Properties of the price model\<close>

lemma py_round_digits_0: "py_round_digits x 0 = of_int (py_round x)"
  by (simp add: py_round_digits_def)

lemma pad_valid_scores_replicate:
  "pad_valid_scores a vs = vs @ replicate (5 - length vs) a"
proof (induction a vs rule: pad_valid_scores.induct)
  case (1 a vs)
  show ?case
  proof (cases "length vs < 5")
    case True
    then have "5 - length vs = Suc (5 - length (vs @ [a]))"
      by simp
    with True 1 show ?thesis
      by (subst pad_valid_scores.simps) (simp add: replicate_app_Cons_same)
  next
    case False
    then show ?thesis
      by (subst pad_valid_scores.simps) simp
  qed
qed

lemma price_window_length:
  "3 \<le> length vs \<Longrightarrow> length (price_window vs) = 5"
  by (simp add: price_window_def pad_valid_scores_replicate Let_def)

lemma price_window_entries:
  "x \<in> set (price_window vs) \<Longrightarrow> x \<in> set vs \<or> x = mean_of vs"
  by (auto simp: price_window_def pad_valid_scores_replicate Let_def mean_of_def
      dest: in_set_takeD split: if_splits)

lemma mean_of_snoc:
  assumes "xs \<noteq> []"
  shows "mean_of (xs @ [mean_of xs]) = mean_of xs"
proof -
  define n where "n = real (length xs)"
  define t where "t = sum_list xs"
  have n: "0 < n"
    using assms by (simp add: n_def)
  have a: "t + t / n = t / n * (n + 1)"
    using n by (simp add: field_simps)
  have b: "n + 1 \<noteq> 0"
    using n by simp
  have "(t + t / n) / (n + 1) = t / n"
    unfolding a using b by simp
  then show ?thesis
    by (simp add: mean_of_def n_def t_def add.commute)
qed

lemma pad_scores_replicate:
  "scores \<noteq> [] \<Longrightarrow>
   pad_scores scores = scores @ replicate (5 - length scores) (mean_of scores)"
proof (induction scores rule: pad_scores.induct)
  case (1 scores)
  show ?case
  proof (cases "length scores < 5")
    case True
    let ?m = "mean_of scores"
    have step: "pad_scores scores = pad_scores (scores @ [?m])"
      using True by (subst pad_scores.simps) (simp add: mean_of_def)
    have ih: "pad_scores (scores @ [?m]) =
        (scores @ [?m]) @ replicate (5 - length (scores @ [?m])) (mean_of (scores @ [?m]))"
      using "1.IH" [OF True] by (simp add: mean_of_def)
    have cnt: "5 - length scores = Suc (5 - length (scores @ [?m]))"
      using True by simp
    show ?thesis
      unfolding step ih mean_of_snoc [OF "1.prems"] cnt
      by (simp add: replicate_app_Cons_same)
  next
    case False
    then show ?thesis
      by (subst pad_scores.simps) simp
  qed
qed

lemma length_round_weights: "length round_weights = 5"
  by (simp add: round_weights_def)

lemma pad_scores_length: "5 \<le> length (pad_scores scores)"
proof (induction scores rule: pad_scores.induct)
  case (1 scores)
  then show ?case
    by (subst pad_scores.simps) simp
qed

lemma breakeven_window_take5:
  "breakeven_window recent_scores = take 5 (pad_scores recent_scores)"
  using pad_scores_length [of recent_scores]
  by (simp add: breakeven_window_def map_fst_zip_take length_round_weights)

lemma breakeven_window_take:
  "recent_scores \<noteq> [] \<Longrightarrow>
   breakeven_window recent_scores =
     take 5 (recent_scores @ replicate (5 - length recent_scores) (mean_of recent_scores))"
  by (simp add: breakeven_window_take5 pad_scores_replicate)

lemma breakeven_window_length:
  "3 \<le> length recent_scores \<Longrightarrow> length (breakeven_window recent_scores) = 5"
  by (subst breakeven_window_take) auto

lemma breakeven_window_entries:
  assumes "recent_scores \<noteq> []" and "x \<in> set (breakeven_window recent_scores)"
  shows "x \<in> set recent_scores \<or> x = mean_of recent_scores"
proof -
  have "x \<in> set (recent_scores @
      replicate (5 - length recent_scores) (mean_of recent_scores))"
    using assms by (simp add: breakeven_window_take) (meson in_set_takeD)
  then show ?thesis
    by auto
qed

text \<open>
  C6. If fewer than three of the supplied scores are greater than zero,
  \<^verbatim>\<open>calculate_price_change\<close> returns the old price unchanged; it is a value of the
  function, not an exception.
\<close>

theorem price_change_too_few_scores:
  "length (filter (\<lambda>s. 0 < s) scores) < 3 \<Longrightarrow>
   calculate_price_change old_price scores round_num = old_price"
  by (simp add: calculate_price_change_def valid_scores_of_def)

theorem price_change_too_few_scores_witness:
  "length (filter (\<lambda>s. 0 < s) [85, 0, 92, - 3 :: real]) < 3 \<and>
   calculate_price_change 800000 [85, 0, 92, - 3] 23 = 800000"
  using price_change_too_few_scores [of "[85, 0, 92, - 3]" 800000 23] by simp

text \<open>
  C9. \<^verbatim>\<open>calculate_disposals\<close> adds kicks and handballs; at 12.5 kicks and 8.3
  handballs the result is 20.8.
\<close>

theorem disposals_sum:
  "calculate_disposals kicks handballs = kicks + handballs \<and>
   calculate_disposals 12.5 8.3 = 20.8"
  by (simp add: calculate_disposals_def)

text \<open>
  C10. With fewer than three recent scores \<^verbatim>\<open>calculate_breakeven_score\<close>
  returns 0, whatever the price and the round.
\<close>

theorem breakeven_short_list_zero:
  "length recent_scores < 3 \<Longrightarrow>
   calculate_breakeven_score current_price recent_scores round_num = 0"
  by (simp add: calculate_breakeven_score_def)

theorem breakeven_short_list_zero_witness:
  "length [95, 102 :: real] < 3 \<and> calculate_breakeven_score 650000 [95, 102] 23 = 0"
  using breakeven_short_list_zero [of "[95, 102]" 650000 23] by simp

text \<open>
  C4, as amended. For \<^verbatim>\<open>calculate_price_change(800000, [85, 92, 78, 88, 95], 23)\<close>
  the weighted sum of the window is 21.638, the magic number of round 23 is 9736, and the
  result is 0.75 * 800000 + 9736 * 21.638 = 810667.568 rounded to the nearest whole number,
  which is 810668.
\<close>

theorem price_change_example:
  "price_weighted_sum (price_window (valid_scores_of [85, 92, 78, 88, 95])) = 21.638 \<and>
   dict_get magic_numbers 23 9736 = 9736 \<and>
   calculate_price_change 800000 [85, 92, 78, 88, 95] 23 =
     of_int (py_round (0.75 * 800000 + 9736 * 21.638)) \<and>
   calculate_price_change 800000 [85, 92, 78, 88, 95] 23 = 810668"
  by (simp add: calculate_price_change_def valid_scores_of_def price_window_def
      price_weighted_sum_def dict_get_def magic_numbers_def py_round_digits_0 py_round_def
      Let_def)

text \<open>
  C4 as stated fails: the value returned is 810668, which is 114 away from the 810782 of
  the specification.
\<close>

theorem price_change_example_counterexample:
  "calculate_price_change 800000 [85, 92, 78, 88, 95] 23 \<noteq> 810782 \<and>
   \<bar>calculate_price_change 800000 [85, 92, 78, 88, 95] 23 - 810782\<bar> = 114"
  by (simp add: calculate_price_change_def valid_scores_of_def price_window_def
      price_weighted_sum_def dict_get_def magic_numbers_def py_round_digits_0 py_round_def
      Let_def)

text \<open>
  C7, as amended. The window of \<^verbatim>\<open>calculate_price_change\<close>, built when at least
  three scores are valid, has exactly five entries, each a valid (positive) input score or
  the mean of the valid scores. The window of \<^verbatim>\<open>calculate_breakeven_score\<close>, built
  when at least three scores are supplied, has exactly five entries, each one of the
  supplied scores (positive or not) or the mean of all supplied scores.
\<close>

theorem window_invariant:
  "(3 \<le> length (valid_scores_of scores) \<longrightarrow>
      length (price_window (valid_scores_of scores)) = 5 \<and>
      (\<forall>x \<in> set (price_window (valid_scores_of scores)).
         (x \<in> set scores \<and> 0 < x) \<or> x = mean_of (valid_scores_of scores))) \<and>
   (3 \<le> length recent_scores \<longrightarrow>
      length (breakeven_window recent_scores) = 5 \<and>
      (\<forall>x \<in> set (breakeven_window recent_scores).
         x \<in> set recent_scores \<or> x = mean_of recent_scores))"
proof (intro conjI impI ballI)
  assume "3 \<le> length (valid_scores_of scores)"
  then show "length (price_window (valid_scores_of scores)) = 5"
    by (rule price_window_length)
next
  fix x
  assume "x \<in> set (price_window (valid_scores_of scores))"
  then have "x \<in> set (valid_scores_of scores) \<or> x = mean_of (valid_scores_of scores)"
    by (rule price_window_entries)
  then show "(x \<in> set scores \<and> 0 < x) \<or> x = mean_of (valid_scores_of scores)"
    by (auto simp: valid_scores_of_def)
next
  assume "3 \<le> length recent_scores"
  then show "length (breakeven_window recent_scores) = 5"
    by (rule breakeven_window_length)
next
  fix x
  assume len: "3 \<le> length recent_scores"
    and x: "x \<in> set (breakeven_window recent_scores)"
  from len have "recent_scores \<noteq> []"
    by auto
  then show "x \<in> set recent_scores \<or> x = mean_of recent_scores"
    using x by (rule breakeven_window_entries)
qed

theorem window_invariant_witness:
  "3 \<le> length (valid_scores_of [80, 0, 90, 100]) \<and>
   price_window (valid_scores_of [80, 0, 90, 100]) = [80, 90, 100, 90, 90] \<and>
   length (price_window (valid_scores_of [80, 0, 90, 100])) = 5 \<and>
   3 \<le> length [80, 0, 90, 100 :: real] \<and>
   length (breakeven_window [80, 0, 90, 100]) = 5"
proof -
  have v: "valid_scores_of [80, 0, 90, 100] = [80, 90, 100]"
    by (simp add: valid_scores_of_def)
  have w: "price_window [80, 90, 100] = [80, 90, 100, 90, 90]"
    by (simp add: price_window_def pad_valid_scores_replicate eval_nat_numeral)
  show ?thesis
    using window_invariant [of "[80, 0, 90, 100]" "[80, 0, 90, 100]"]
    by (simp add: v w)
qed

text \<open>
  C7 as stated fails for \<^verbatim>\<open>calculate_breakeven_score\<close>: from the scores 0, 80, 90
  its window starts with 0, which is neither a valid (positive) score nor the mean 85 of
  the valid scores.
\<close>

theorem window_invariant_counterexample:
  "breakeven_window [0, 80, 90] ! 0 = 0 \<and>
   breakeven_window [0, 80, 90] ! 0 \<notin> set (valid_scores_of [0, 80, 90]) \<and>
   breakeven_window [0, 80, 90] ! 0 \<noteq> mean_of (valid_scores_of [0, 80, 90])"
  by (simp add: breakeven_window_take valid_scores_of_def mean_of_def)


text \<open>
  The rounding to a double is a rounding: the exponent brackets its argument, and the
  result is within half a unit in the last place, a relative error of at most \<open>2 ^ - 53\<close>.
\<close>

lemma expo_bracket:
  "0 < x \<Longrightarrow> 2 powi expo x \<le> x \<and> x < 2 powi (expo x + 1)"
proof (induction x rule: expo.induct)
  case (1 x)
  show ?case
  proof (cases "2 \<le> x")
    case True
    with "1.prems" have ih: "2 powi expo (x / 2) \<le> x / 2 \<and> x / 2 < 2 powi (expo (x / 2) + 1)"
      by (intro "1.IH") simp_all
    have e: "expo x = expo (x / 2) + 1"
      using True "1.prems" by (subst expo.simps) simp
    from ih show ?thesis
      unfolding e by (simp add: power_int_add)
  next
    case False
    show ?thesis
    proof (cases "x < 1")
      case True
      with "1.prems" False
      have ih: "2 powi expo (x * 2) \<le> x * 2 \<and> x * 2 < 2 powi (expo (x * 2) + 1)"
        by (intro "1.IH") simp_all
      have e: "expo x = expo (x * 2) - 1"
        using True False "1.prems" by (subst expo.simps) simp
      from ih show ?thesis
        unfolding e by (simp add: power_int_diff power_int_add)
    next
      case nlt: False
      with False "1.prems" have "expo x = 0"
        by (subst expo.simps) simp
      with False nlt show ?thesis
        by simp
    qed
  qed
qed

lemma py_round_error: "\<bar>of_int (py_round y) - y\<bar> \<le> 1 / 2"
  by (auto simp: py_round_def Let_def)

lemma to_double_error: "\<bar>to_double x - x\<bar> \<le> \<bar>x\<bar> / 2 ^ 53"
proof (cases "x = 0")
  case True
  then show ?thesis
    by (simp add: to_double_def)
next
  case False
  define ulp :: real where "ulp = 2 powi (expo \<bar>x\<bar> - 52)"
  have ulp: "0 < ulp"
    by (simp add: ulp_def)
  have "to_double x - x = (of_int (py_round (x / ulp)) - x / ulp) * ulp"
    using False ulp by (simp add: to_double_def ulp_def [symmetric] Let_def algebra_simps)
  then have "\<bar>to_double x - x\<bar> = \<bar>of_int (py_round (x / ulp)) - x / ulp\<bar> * ulp"
    using ulp by (simp add: abs_mult)
  also have "\<dots> \<le> 1 / 2 * ulp"
    using py_round_error [of "x / ulp"] ulp by (intro mult_right_mono) simp_all
  also have "\<dots> = 2 powi expo \<bar>x\<bar> / 2 ^ 53"
    by (simp add: ulp_def power_int_diff)
  also have "\<dots> \<le> \<bar>x\<bar> / 2 ^ 53"
    using expo_bracket [of "\<bar>x\<bar>"] False by (intro divide_right_mono) simp_all
  finally show ?thesis .
qed

lemma length_double_weights: "length (map to_double round_weights) = 5"
  by (simp add: round_weights_def)

lemma pad_scores_double_length: "5 \<le> length (pad_scores_double scores)"
proof (induction scores rule: pad_scores_double.induct)
  case (1 scores)
  then show ?case
    by (subst pad_scores_double.simps) simp
qed

lemma double_window_take5:
  "double_window recent_scores = take 5 (pad_scores_double recent_scores)"
  using pad_scores_double_length [of recent_scores]
  by (simp add: double_window_def map_fst_zip_take length_round_weights)

lemma pad_scores_double_long:
  "5 \<le> length scores \<Longrightarrow> pad_scores_double scores = scores"
  by (subst pad_scores_double.simps) simp

lemma pad_scores_double_step:
  "length scores < 5 \<Longrightarrow>
   pad_scores_double scores = pad_scores_double (scores @ [double_mean scores])"
  by (subst pad_scores_double.simps) (simp add: double_mean_def)

lemma double_window_closed:
  assumes "3 \<le> length recent_scores"
  shows "double_window recent_scores =
     take 5 (recent_scores @
             [double_mean recent_scores,
              double_mean (recent_scores @ [double_mean recent_scores])])"
proof -
  let ?m = "double_mean recent_scores"
  consider "length recent_scores = 3" | "length recent_scores = 4" | "5 \<le> length recent_scores"
    using assms by linarith
  then show ?thesis
  proof cases
    case 1
    then have "pad_scores_double recent_scores =
        pad_scores_double ((recent_scores @ [?m]) @ [double_mean (recent_scores @ [?m])])"
      by (simp add: pad_scores_double_step)
    also have "\<dots> = (recent_scores @ [?m]) @ [double_mean (recent_scores @ [?m])]"
      using 1 by (intro pad_scores_double_long) simp
    finally show ?thesis
      by (simp add: double_window_take5)
  next
    case 2
    then have "pad_scores_double recent_scores = pad_scores_double (recent_scores @ [?m])"
      by (simp add: pad_scores_double_step)
    also have "\<dots> = recent_scores @ [?m]"
      using 2 by (intro pad_scores_double_long) simp
    finally show ?thesis
      using 2 by (simp add: double_window_take5)
  next
    case 3
    then show ?thesis
      by (simp add: double_window_take5 pad_scores_double_long)
  qed
qed



text \<open>
  The window in double precision against the window over the reals: both have five
  entries; with five or more scores they are the same list, and with fewer the paddings
  are the means as line 50 computes them.
\<close>

lemma double_window_length:
  "3 \<le> length recent_scores \<Longrightarrow> length (double_window recent_scores) = 5"
  using pad_scores_double_length [of recent_scores] by (simp add: double_window_take5)

lemma double_window_long:
  assumes "5 \<le> length recent_scores"
  shows "double_window recent_scores = breakeven_window recent_scores"
proof -
  from assms have "pad_scores recent_scores = recent_scores"
    by (subst pad_scores.simps) simp
  with assms show ?thesis
    by (simp add: double_window_take5 pad_scores_double_long breakeven_window_take5)
qed

lemma double_window_entries:
  assumes "3 \<le> length recent_scores" and "x \<in> set (double_window recent_scores)"
  shows "x \<in> set recent_scores \<or> x = double_mean recent_scores \<or>
         x = double_mean (recent_scores @ [double_mean recent_scores])"
proof -
  have "x \<in> set (recent_scores @
      [double_mean recent_scores, double_mean (recent_scores @ [double_mean recent_scores])])"
    using assms(2) unfolding double_window_closed [OF assms(1)] by (rule in_set_takeD)
  then show ?thesis
    by auto
qed




text \<open>
  C3, as amended. \<^verbatim>\<open>calculate_price_change_from_breakeven\<close> computes the base change
  (actual score minus break-even score, times 300), scales it by 1.4 for rises and 0.7 for
  drops below a price of 300000, by 0.6 for rises and 1.2 for drops above 1300000 and by 1
  otherwise, sets the scaled change to zero whenever the score difference is at most 10 in
  magnitude and the scaled change is below 15000 in magnitude, and returns the larger of
  price plus change and 200000, rounded to the nearest whole number.
\<close>

theorem price_change_from_breakeven_value:
  "calculate_price_change_from_breakeven current_price actual_score breakeven_score =
     py_round_digits
       (max (current_price + spec_adjusted_change current_price actual_score breakeven_score)
            200000) 0"
proof -
  define base where "base = (actual_score - breakeven_score) * 300"
  define code_factor :: real where "code_factor =
     (if current_price < 300000 then (if 0 < base then 1.4 else 0.7)
      else if 1300000 < current_price then (if 0 < base then 0.6 else 1.2)
      else 1.0)"
  define spec_factor :: real where "spec_factor =
     (if current_price < 300000
      then (if 0 < base then 1.4 else if base < 0 then 0.7 else 1)
      else if 1300000 < current_price
      then (if 0 < base then 0.6 else if base < 0 then 1.2 else 1)
      else 1)"
  have same: "base * code_factor = base * spec_factor"
    by (cases "base = 0") (auto simp: code_factor_def spec_factor_def)
  have code: "calculate_price_change_from_breakeven current_price actual_score breakeven_score =
      py_round_digits (max (current_price +
        (if \<bar>actual_score - breakeven_score\<bar> \<le> 10
         then (if \<bar>base * code_factor\<bar> < 15000 then 0 else base * code_factor)
         else base * code_factor)) 200000) 0"
    unfolding calculate_price_change_from_breakeven_def Let_def base_def code_factor_def
      low_price_threshold_def high_price_threshold_def price_per_point_def
      protection_threshold_def
    by (rule refl)
  have spec: "spec_adjusted_change current_price actual_score breakeven_score =
      (if \<bar>actual_score - breakeven_score\<bar> \<le> 10 \<and> \<bar>base * spec_factor\<bar> < 15000
       then 0 else base * spec_factor)"
    unfolding spec_adjusted_change_def Let_def base_def spec_factor_def
    by (rule refl)
  show ?thesis
    unfolding code spec same by simp
qed

theorem price_change_from_breakeven_value_witness:
  "spec_adjusted_change 250000 90 70 = 8400 \<and>
   calculate_price_change_from_breakeven 250000 90 70 = 258400"
proof -
  have a: "spec_adjusted_change 250000 90 70 = 8400"
    by (simp add: spec_adjusted_change_def Let_def)
  have "py_round_digits (max (250000 + 8400) 200000) 0 = 258400"
    by (simp add: py_round_digits_0 py_round_def Let_def)
  with a show ?thesis
    using price_change_from_breakeven_value [of 250000 90 70] by simp
qed

text \<open>
  C3 as stated fails: at a price of 250000, a score of 90.01 and a break-even of 70 the
  larger of price plus change and 200000 is 258404.2, and the function returns 258404.
\<close>

theorem price_change_from_breakeven_counterexample:
  "max (250000 + spec_adjusted_change 250000 90.01 70) 200000 = 258404.2 \<and>
   calculate_price_change_from_breakeven 250000 90.01 70 = 258404 \<and>
   calculate_price_change_from_breakeven 250000 90.01 70 \<noteq>
     max (250000 + spec_adjusted_change 250000 90.01 70) 200000"
  by (simp add: calculate_price_change_from_breakeven_def spec_adjusted_change_def
      low_price_threshold_def high_price_threshold_def price_per_point_def
      protection_threshold_def py_round_digits_0 py_round_def Let_def)

section \<open>Properties of the ratings\<close>

lemma py_round_lower: "of_int a \<le> x \<Longrightarrow> a \<le> py_round x"
proof -
  assume "of_int a \<le> x"
  then have "a \<le> floor x"
    by (simp add: le_floor_iff)
  then show ?thesis
    by (simp add: py_round_def Let_def)
qed

lemma py_round_upper:
  assumes "x \<le> of_int b"
  shows "py_round x \<le> b"
proof (cases "x = of_int b")
  case True
  then show ?thesis
    by (simp add: py_round_def)
next
  case False
  with assms have "x < of_int b"
    by simp
  then have "floor x < b"
    by (simp add: floor_less_iff)
  then show ?thesis
    by (simp add: py_round_def Let_def)
qed

lemma py_round_digits_bounds:
  assumes "1 \<le> x" and "x \<le> 10"
  shows "1 \<le> py_round_digits x 1" and "py_round_digits x 1 \<le> 10"
proof -
  have "of_int 10 \<le> x * 10" and "x * 10 \<le> of_int 100"
    using assms by simp_all
  then have "10 \<le> py_round (x * 10)" and "py_round (x * 10) \<le> 100"
    by (simp_all add: py_round_lower py_round_upper)
  then show "1 \<le> py_round_digits x 1" and "py_round_digits x 1 \<le> 10"
    by (simp_all add: py_round_digits_def)
qed

lemma rank_to_rating_range:
  "rank_to_rating i n = Inr r \<Longrightarrow> 1 \<le> r \<and> r \<le> 10"
  by (auto simp: rank_to_rating_def split: if_splits)

lemma rate_teams_range:
  "rate_teams position n i team_avgs ratings = Inr ratings' \<Longrightarrow> ratings_in_range ratings \<Longrightarrow>
   ratings_in_range ratings'"
proof (induction team_avgs arbitrary: i ratings)
  case Nil
  then show ?case by simp
next
  case (Cons a team_avgs)
  obtain team avg_pts where a: "a = (team, avg_pts)"
    by (cases a)
  from Cons.prems(1) obtain r where r: "rank_to_rating i n = Inr r"
    and rest: "rate_teams position n (Suc i) team_avgs
       (ratings((team, position) \<mapsto>
          \<lparr>rating = r, rating_avg_points_allowed = avg_pts, rank = i + 1\<rparr>)) = Inr ratings'"
    by (auto simp: a split: sum.splits)
  have "ratings_in_range (ratings((team, position) \<mapsto>
          \<lparr>rating = r, rating_avg_points_allowed = avg_pts, rank = i + 1\<rparr>))"
    using Cons.prems(2) rank_to_rating_range [OF r] by (auto simp: ratings_in_range_def)
  with rest show ?case
    by (rule Cons.IH)
qed

lemma rate_positions_range:
  "rate_positions stats positions ratings = Inr ratings' \<Longrightarrow> ratings_in_range ratings \<Longrightarrow>
   ratings_in_range ratings'"
proof (induction positions arbitrary: ratings)
  case Nil
  then show ?case by simp
next
  case (Cons position positions)
  show ?case
  proof (cases "team_avgs_of stats position = []")
    case True
    with Cons.prems show ?thesis
      by (auto intro: Cons.IH)
  next
    case False
    let ?sorted = "sort_key snd (team_avgs_of stats position)"
    from Cons.prems(1) False obtain mid where
      mid: "rate_teams position (length ?sorted) 0 ?sorted ratings = Inr mid"
      and rest: "rate_positions stats positions mid = Inr ratings'"
      by (auto simp: Let_def split: sum.splits)
    from mid Cons.prems(2) have "ratings_in_range mid"
      by (rule rate_teams_range)
    with rest show ?thesis
      by (rule Cons.IH)
  qed
qed

lemma create_dvp_team_ratings_range:
  "create_dvp_team_ratings stats = Inr ratings \<Longrightarrow> ratings k = Some t \<Longrightarrow>
   1 \<le> rating t \<and> rating t \<le> 10"
proof -
  assume run: "create_dvp_team_ratings stats = Inr ratings" and k: "ratings k = Some t"
  have "ratings_in_range Map.empty"
    by (simp add: ratings_in_range_def)
  with run have "ratings_in_range ratings"
    unfolding create_dvp_team_ratings_def by (rule rate_positions_range)
  with k show ?thesis
    unfolding ratings_in_range_def by blast
qed

lemma rate_player_ok:
  assumes "rate_player player_to_position player = Some m"
  shows "matchup_ok m"
proof -
  from assms obtain x :: real where x: "matchup_rating m = py_round_digits (max 1 (min 10 x)) 1"
    by (auto simp: rate_player_def Let_def split: if_splits)
  have "1 \<le> max 1 (min 10 x)" and "max 1 (min 10 x) \<le> 10"
    by simp_all
  then have "1 \<le> matchup_rating m" and "matchup_rating m \<le> 10"
    unfolding x by (rule py_round_digits_bounds)+
  moreover have "\<exists>z :: int. matchup_rating m = of_int z / 10"
    unfolding x by (auto simp: py_round_digits_def)
  ultimately show ?thesis
    by (simp add: matchup_ok_def)
qed

lemma rate_players_ok:
  "matchups_ok ratings \<Longrightarrow> matchups_ok (rate_players player_to_position opponent players ratings)"
proof (induction players arbitrary: ratings)
  case Nil
  then show ?case by simp
next
  case (Cons player players)
  show ?case
  proof (cases "rate_player player_to_position player")
    case None
    with Cons show ?thesis by simp
  next
    case (Some entry)
    then have "matchup_ok entry"
      by (rule rate_player_ok)
    with Cons.prems have "matchups_ok (ratings((PLAYER player, opponent) \<mapsto> entry))"
      by (auto simp: matchups_ok_def)
    then have "matchups_ok (rate_players player_to_position opponent players
        (ratings((PLAYER player, opponent) \<mapsto> entry)))"
      by (rule Cons.IH)
    then show ?thesis
      using Some by simp
  qed
qed

lemma rate_matchups_ok:
  "matchups_ok ratings \<Longrightarrow> matchups_ok (rate_matchups player_to_position matchups ratings)"
proof (induction matchups arbitrary: ratings)
  case Nil
  then show ?case by simp
next
  case (Cons a matchups)
  obtain opponent opponent_data where a: "a = (opponent, opponent_data)"
    by (cases a)
  show ?case
    using Cons.prems
    by (cases opponent_data) (simp_all add: a Cons.IH rate_players_ok)
qed

lemma rate_player_data_ok:
  "matchups_ok ratings \<Longrightarrow> matchups_ok (rate_player_data player_to_position player_data ratings)"
proof (induction player_data arbitrary: ratings)
  case Nil
  then show ?case by simp
next
  case (Cons a player_data)
  obtain team matchups where a: "a = (team, matchups)"
    by (cases a)
  show ?case
    using Cons.prems by (simp add: a Cons.IH rate_matchups_ok)
qed

lemma calculate_player_dvp_ratings_ok:
  "calculate_player_dvp_ratings player_to_position player_data k = Some m \<Longrightarrow> matchup_ok m"
proof -
  have "matchups_ok (calculate_player_dvp_ratings player_to_position player_data)"
    unfolding calculate_player_dvp_ratings_def
    by (rule rate_player_data_ok) (simp add: matchups_ok_def)
  then show "calculate_player_dvp_ratings player_to_position player_data k = Some m \<Longrightarrow>
      matchup_ok m"
    unfolding matchups_ok_def by blast
qed

lemma rank_to_rating_value:
  assumes "2 \<le> n"
  shows "rank_to_rating i n = Inr (truncated_rating i n)"
proof -
  have a: "real_of_int (int n - 1) = real (n - 1)"
    using assms by (simp add: of_nat_diff)
  have b: "int n - 1 \<noteq> 0"
    using assms by simp
  have c: "0 \<le> (real i / real (n - 1)) * 9"
    by simp
  show ?thesis
    unfolding rank_to_rating_def truncated_rating_def a py_int_def
    using b c by simp
qed

lemma rate_teams_returns:
  "2 \<le> n \<Longrightarrow> \<exists>r. rate_teams pos n i xs acc = Inr r"
proof (induction xs arbitrary: i acc)
  case Nil
  then show ?case by simp
next
  case (Cons a xs)
  obtain team avg_pts where a: "a = (team, avg_pts)"
    by (cases a)
  show ?case
    using Cons.IH [OF Cons.prems] by (simp add: a rank_to_rating_value [OF Cons.prems])
qed

lemma rate_teams_Cons_Inr:
  assumes "rate_teams pos n i ((team, avg_pts) # xs) acc = Inr r"
  obtains v where "rank_to_rating i n = Inr v"
    and "rate_teams pos n (Suc i) xs
      (acc((team, pos) \<mapsto> \<lparr>rating = v, rating_avg_points_allowed = avg_pts, rank = i + 1\<rparr>))
      = Inr r"
  using assms by (auto split: sum.splits)

lemma rate_teams_frame:
  "rate_teams pos n i xs acc = Inr r \<Longrightarrow> q \<noteq> pos \<or> t \<notin> fst ` set xs \<Longrightarrow>
   r (t, q) = acc (t, q)"
proof (induction xs arbitrary: i acc)
  case Nil
  then show ?case by simp
next
  case (Cons a xs)
  obtain team avg_pts where a: "a = (team, avg_pts)"
    by (cases a)
  from Cons.prems(1) obtain v where rest: "rate_teams pos n (Suc i) xs
      (acc((team, pos) \<mapsto> \<lparr>rating = v, rating_avg_points_allowed = avg_pts, rank = i + 1\<rparr>))
      = Inr r"
    unfolding a by (rule rate_teams_Cons_Inr)
  from Cons.prems(2) have here: "(t, q) \<noteq> (team, pos)"
    and later: "q \<noteq> pos \<or> t \<notin> fst ` set xs"
    by (auto simp: a)
  from here have "(acc((team, pos) \<mapsto>
      \<lparr>rating = v, rating_avg_points_allowed = avg_pts, rank = i + 1\<rparr>)) (t, q) = acc (t, q)"
    by (rule fun_upd_other)
  with Cons.IH [OF rest later] show ?case
    by (rule trans)
qed

lemma rate_teams_entry:
  "rate_teams pos n i xs acc = Inr r \<Longrightarrow> 2 \<le> n \<Longrightarrow> distinct (map fst xs) \<Longrightarrow>
   j < length xs \<Longrightarrow>
   r (fst (xs ! j), pos) = Some (rated_entry (i + j) n (snd (xs ! j)))"
proof (induction xs arbitrary: i j acc)
  case Nil
  then show ?case by simp
next
  case (Cons a xs)
  obtain team avg_pts where a: "a = (team, avg_pts)"
    by (cases a)
  from Cons.prems(1) obtain v where v: "rank_to_rating i n = Inr v"
    and rest: "rate_teams pos n (Suc i) xs
      (acc((team, pos) \<mapsto> \<lparr>rating = v, rating_avg_points_allowed = avg_pts, rank = i + 1\<rparr>))
      = Inr r"
    unfolding a by (rule rate_teams_Cons_Inr)
  from v have v': "v = truncated_rating i n"
    by (simp add: rank_to_rating_value [OF Cons.prems(2)])
  from Cons.prems(3) have fresh: "team \<notin> fst ` set xs" and d: "distinct (map fst xs)"
    by (simp_all add: a)
  show ?case
  proof (cases j)
    case 0
    from fresh have "pos \<noteq> pos \<or> team \<notin> fst ` set xs"
      by simp
    from rate_teams_frame [OF rest this]
    have "r (team, pos) = (acc((team, pos) \<mapsto>
        \<lparr>rating = v, rating_avg_points_allowed = avg_pts, rank = i + 1\<rparr>)) (team, pos)" .
    then show ?thesis
      by (simp add: 0 a v' rated_entry_def)
  next
    case (Suc j')
    with Cons.prems(4) have "j' < length xs"
      by simp
    from Cons.IH [OF rest Cons.prems(2) d this] show ?thesis
      by (simp add: Suc)
  qed
qed

lemma distinct_team_avgs:
  assumes "distinct (map fst stats)"
  shows "distinct (map fst (sort_key snd (team_avgs_of stats pos)))"
proof -
  have "map fst (team_avgs_of stats pos) =
      map fst (filter (\<lambda>(team, st). 3 \<le> sample_size (st pos)) stats)"
    by (simp add: team_avgs_of_def case_prod_beta comp_def)
  then have "distinct (map fst (team_avgs_of stats pos))"
    using assms by (simp add: distinct_map_filter)
  then show ?thesis
    by (simp add: distinct_map)
qed

lemma rate_positions_Cons_Inr:
  assumes "rate_positions stats (p # ps) acc = Inr r"
  obtains "team_avgs_of stats p = []" and "rate_positions stats ps acc = Inr r"
  | mid where "team_avgs_of stats p \<noteq> []"
    and "rate_teams p (length (team_avgs_of stats p)) 0
           (sort_key snd (team_avgs_of stats p)) acc = Inr mid"
    and "rate_positions stats ps mid = Inr r"
  using assms by (auto simp: Let_def split: if_splits sum.splits)

lemma rate_positions_returns:
  "\<forall>p \<in> set ps. length (team_avgs_of stats p) \<noteq> 1 \<Longrightarrow>
   \<exists>r. rate_positions stats ps acc = Inr r"
proof (induction ps arbitrary: acc)
  case Nil
  then show ?case by simp
next
  case (Cons p ps)
  let ?avgs = "team_avgs_of stats p"
  from Cons.prems have sizes: "\<forall>q \<in> set ps. length (team_avgs_of stats q) \<noteq> 1"
    and size: "length ?avgs \<noteq> 1"
    by simp_all
  show ?case
  proof (cases "?avgs = []")
    case True
    with Cons.IH [OF sizes, of acc] show ?thesis
      by simp
  next
    case False
    then have "0 < length ?avgs"
      by simp
    with size have "2 \<le> length ?avgs"
      by arith
    from rate_teams_returns [OF this, of p 0 "sort_key snd ?avgs" acc] obtain mid where
      "rate_teams p (length ?avgs) 0 (sort_key snd ?avgs) acc = Inr mid" ..
    with Cons.IH [OF sizes, of mid] False show ?thesis
      by (simp add: Let_def)
  qed
qed

lemma rate_positions_frame:
  "rate_positions stats ps acc = Inr r \<Longrightarrow> q \<notin> set ps \<Longrightarrow> r (t, q) = acc (t, q)"
proof (induction ps arbitrary: acc)
  case Nil
  then show ?case by simp
next
  case (Cons p ps)
  from Cons.prems(2) have q: "q \<notin> set ps" and qp: "q \<noteq> p"
    by simp_all
  from Cons.prems(1) show ?case
  proof (cases rule: rate_positions_Cons_Inr)
    case 1
    from Cons.IH [OF 1(2) q] show ?thesis .
  next
    case (2 mid)
    have "r (t, q) = mid (t, q)"
      using 2(3) q by (rule Cons.IH)
    also from qp have "mid (t, q) = acc (t, q)"
      by (intro rate_teams_frame [OF 2(2)] disjI1)
    finally show ?thesis .
  qed
qed

lemma rate_positions_entry:
  "rate_positions stats ps acc = Inr r \<Longrightarrow> distinct ps \<Longrightarrow> distinct (map fst stats) \<Longrightarrow>
   p \<in> set ps \<Longrightarrow> j < length (team_avgs_of stats p) \<Longrightarrow>
   2 \<le> length (team_avgs_of stats p) \<and>
   r (fst (sort_key snd (team_avgs_of stats p) ! j), p) =
     Some (rated_entry j (length (team_avgs_of stats p))
             (snd (sort_key snd (team_avgs_of stats p) ! j)))"
proof (induction ps arbitrary: acc)
  case Nil
  then show ?case by simp
next
  case (Cons p' ps)
  from Cons.prems(2) have dps: "distinct ps" and fresh: "p' \<notin> set ps"
    by simp_all
  from Cons.prems(1) show ?case
  proof (cases rule: rate_positions_Cons_Inr)
    case 1
    with Cons.prems(4,5) have "p \<in> set ps"
      by auto
    from Cons.IH [OF 1(2) dps Cons.prems(3) this Cons.prems(5)] show ?thesis .
  next
    case (2 mid)
    show ?thesis
    proof (cases "p = p'")
      case False
      with Cons.prems(4) have "p \<in> set ps"
        by simp
      from Cons.IH [OF 2(3) dps Cons.prems(3) this Cons.prems(5)] show ?thesis .
    next
      case True
      let ?avgs = "team_avgs_of stats p"
      let ?sorted = "sort_key snd ?avgs"
      from 2(2) have run: "rate_teams p (length ?sorted) 0 ?sorted acc = Inr mid"
        by (simp add: True)
      have n: "2 \<le> length ?avgs"
      proof (rule ccontr)
        assume "\<not> 2 \<le> length ?avgs"
        with Cons.prems(5) have one: "length ?sorted = 1"
          by simp
        then obtain x where "?sorted = [x]"
          by (auto simp: length_Suc_conv)
        with run one show False
          by (cases x) (simp add: rank_to_rating_def)
      qed
      have "r (fst (?sorted ! j), p) = mid (fst (?sorted ! j), p)"
        using 2(3) fresh unfolding True by (rule rate_positions_frame)
      also have "\<dots> = Some (rated_entry (0 + j) (length ?sorted) (snd (?sorted ! j)))"
        using run _ distinct_team_avgs [OF Cons.prems(3)]
        by (rule rate_teams_entry) (use n Cons.prems(5) in simp_all)
      finally show ?thesis
        using n by simp
    qed
  qed
qed

lemma position_group_cases: "p \<in> set [Forward, Midfielder, Defender, Ruck]"
  by (cases p) simp_all

lemma six_teams_forward:
  "team_avgs_of six_teams Forward =
     [(''Carlton'', 80), (''Geelong'', 60), (''Sydney'', 90), (''Essendon'', 70),
      (''Richmond'', 75)]"
  by (simp add: team_avgs_of_def six_teams_def forward_only_def)

lemma six_teams_others:
  "team_avgs_of six_teams Midfielder = []"
  "team_avgs_of six_teams Defender = []"
  "team_avgs_of six_teams Ruck = []"
  by (simp_all add: team_avgs_of_def six_teams_def forward_only_def)

lemma six_teams_sorted:
  "sort_key snd (team_avgs_of six_teams Forward) =
     [(''Geelong'', 60), (''Essendon'', 70), (''Richmond'', 75), (''Carlton'', 80),
      (''Sydney'', 90)]"
  by (simp add: six_teams_forward)

lemma six_teams_carlton:
  "team_rating_of (create_dvp_team_ratings six_teams) ''Carlton'' Forward = Some 7"
  by (simp add: create_dvp_team_ratings_def six_teams_others six_teams_forward
      rank_to_rating_def py_int_def team_rating_of_def)

text \<open>
  With exactly one eligible team in a position group, line 134 divides by zero and the
  whole run raises.
\<close>

lemma single_eligible_team_raises:
  "team_avgs_of one_team Forward = [(''Carlton'', 80)] \<and>
   create_dvp_team_ratings one_team = Inl ZeroDivisionError"
  by (simp add: create_dvp_team_ratings_def team_avgs_of_def one_team_def forward_only_def
      rank_to_rating_def)

lemma daicos_consistency: "consistency_of [120, 104] = 6 / 7"
proof -
  have "sqrt 64 = 8"
    by (rule real_sqrt_unique) simp_all
  then show ?thesis
    by (simp add: consistency_of_def np_mean_def np_std_def Let_def)
qed

lemma carlton_matchups_daicos:
  "calculate_player_dvp_ratings Map.empty carlton_matchups (''Nick Daicos'', ''Geelong'') =
     Some \<lparr>matchup_rating = 9.1, avg_points = 112.5, games_played = 4, consistency = 0.86,
            matchup_position = None\<rparr>"
proof -
  have a: "py_round_digits (64 / 7) (Suc 0) = 9.1"
    by (simp add: py_round_digits_def py_round_def Let_def)
  have b: "py_round_digits (6 / 7) 2 = 0.86"
    by (simp add: py_round_digits_def py_round_def Let_def)
  have row: "rate_player Map.empty daicos_row =
     Some \<lparr>matchup_rating = 9.1, avg_points = 112.5, games_played = 4, consistency = 0.86,
            matchup_position = None\<rparr>"
    by (simp add: rate_player_def daicos_row_def startswith_def daicos_consistency Let_def a b)
  have none: "rate_player Map.empty unrated_row = None"
    by (simp add: rate_player_def unrated_row_def)
  have name: "PLAYER daicos_row = ''Nick Daicos''"
    by (simp add: daicos_row_def)
  show ?thesis
    by (simp add: calculate_player_dvp_ratings_def carlton_matchups_def row none name)
qed

text \<open>
  C1, as amended. If the teams are distinct and no position group has exactly one eligible
  team (sample size at least 3), \<^verbatim>\<open>create_dvp_team_ratings\<close> returns, and for every
  position group with \<open>n\<close> eligible teams, sorted ascending by average points allowed
  with a stable sort, the team at sorted index \<open>i\<close> has the rating
  clamp(1, 10, floor((i / (n - 1)) * 9) + 1), its average, and the rank \<open>i + 1\<close>: the
  quotient is truncated, not rounded.
\<close>

theorem team_rating_by_rank:
  assumes "distinct (map fst stats)"
    and "\<forall>p. length (team_avgs_of stats p) \<noteq> 1"
  shows "\<exists>ratings. create_dvp_team_ratings stats = Inr ratings \<and>
     (\<forall>pos. sorted (map snd (sort_key snd (team_avgs_of stats pos))) \<and>
        set (sort_key snd (team_avgs_of stats pos)) = set (team_avgs_of stats pos)) \<and>
     (\<forall>pos i. i < length (team_avgs_of stats pos) \<longrightarrow>
        ratings (fst (sort_key snd (team_avgs_of stats pos) ! i), pos) =
          Some \<lparr>rating = max 1 (min 10
                   (floor ((real i / real (length (team_avgs_of stats pos) - 1)) * 9) + 1)),
                rating_avg_points_allowed = snd (sort_key snd (team_avgs_of stats pos) ! i),
                rank = i + 1\<rparr>)"
proof -
  let ?all = "[Forward, Midfielder, Defender, Ruck]"
  have d: "distinct ?all"
    by simp
  have "\<forall>p \<in> set ?all. length (team_avgs_of stats p) \<noteq> 1"
    using assms(2) by simp
  from rate_positions_returns [OF this, of Map.empty]
  obtain r where run: "rate_positions stats ?all Map.empty = Inr r" ..
  show ?thesis
  proof (intro exI conjI allI impI)
    show "create_dvp_team_ratings stats = Inr r"
      using run by (simp add: create_dvp_team_ratings_def)
  next
    fix pos
    show "sorted (map snd (sort_key snd (team_avgs_of stats pos)))"
      by (rule sorted_sort_key)
  next
    fix pos
    show "set (sort_key snd (team_avgs_of stats pos)) = set (team_avgs_of stats pos)"
      by (rule set_sort)
  next
    fix pos i
    assume "i < length (team_avgs_of stats pos)"
    with run d assms(1) position_group_cases [of pos]
    have "2 \<le> length (team_avgs_of stats pos) \<and>
      r (fst (sort_key snd (team_avgs_of stats pos) ! i), pos) =
             Some (rated_entry i (length (team_avgs_of stats pos))
                     (snd (sort_key snd (team_avgs_of stats pos) ! i)))"
      by (rule rate_positions_entry)
    then show "r (fst (sort_key snd (team_avgs_of stats pos) ! i), pos) =
          Some \<lparr>rating = max 1 (min 10
                   (floor ((real i / real (length (team_avgs_of stats pos) - 1)) * 9) + 1)),
                rating_avg_points_allowed = snd (sort_key snd (team_avgs_of stats pos) ! i),
                rank = i + 1\<rparr>"
      by (simp add: rated_entry_def truncated_rating_def)
  qed
qed

theorem team_rating_by_rank_witness:
  "distinct (map fst six_teams) \<and>
   length (team_avgs_of six_teams Forward) = 5 \<and>
   sort_key snd (team_avgs_of six_teams Forward) ! 3 = (''Carlton'', 80) \<and>
   (\<exists>ratings. create_dvp_team_ratings six_teams = Inr ratings \<and>
      ratings (''Carlton'', Forward) =
        Some \<lparr>rating = 7, rating_avg_points_allowed = 80, rank = 4\<rparr>)"
proof -
  have d: "distinct (map fst six_teams)"
    by (simp add: six_teams_def)
  have s: "\<forall>p. length (team_avgs_of six_teams p) \<noteq> 1"
  proof
    fix p
    show "length (team_avgs_of six_teams p) \<noteq> 1"
      by (cases p) (simp_all add: six_teams_forward six_teams_others)
  qed
  from team_rating_by_rank [OF d s] obtain ratings where
    run: "create_dvp_team_ratings six_teams = Inr ratings"
    and entries: "\<forall>pos i. i < length (team_avgs_of six_teams pos) \<longrightarrow>
        ratings (fst (sort_key snd (team_avgs_of six_teams pos) ! i), pos) =
          Some \<lparr>rating = max 1 (min 10
                   (floor ((real i / real (length (team_avgs_of six_teams pos) - 1)) * 9) + 1)),
                rating_avg_points_allowed = snd (sort_key snd (team_avgs_of six_teams pos) ! i),
                rank = i + 1\<rparr>"
    by (elim exE conjE)
  from spec [OF spec [OF entries, of Forward], of 3]
  have "ratings (''Carlton'', Forward) =
      Some \<lparr>rating = 7, rating_avg_points_allowed = 80, rank = 4\<rparr>"
    by (simp add: six_teams_sorted) (simp add: six_teams_forward)
  with run d show ?thesis
    by (simp add: six_teams_sorted) (simp add: six_teams_forward)
qed

text \<open>
  C1 as stated fails: of five eligible teams, Carlton is at sorted index 3 and is rated
  int(6.75) + 1 = 7, where the rounded formula of the specification gives 8.
\<close>

theorem team_rating_by_rank_counterexample:
  "length (team_avgs_of six_teams Forward) = 5 \<and>
   sort_key snd (team_avgs_of six_teams Forward) ! 3 = (''Carlton'', 80) \<and>
   team_rating_of (create_dvp_team_ratings six_teams) ''Carlton'' Forward = Some 7 \<and>
   spec_team_rating 3 5 = 8"
proof -
  have "spec_team_rating 3 5 = 8"
    by (simp add: spec_team_rating_def py_round_def Let_def)
  moreover have "length (team_avgs_of six_teams Forward) = 5"
    by (simp add: six_teams_forward)
  moreover have "sort_key snd (team_avgs_of six_teams Forward) ! 3 = (''Carlton'', 80)"
    by (simp add: six_teams_sorted)
  ultimately show ?thesis
    using six_teams_carlton by simp
qed

text \<open>
  C8. Every rating that line 134 computes, and so every team rating that
  \<^verbatim>\<open>create_dvp_team_ratings\<close> stores, is an integer between 1 and 10, and every player
  rating that \<^verbatim>\<open>calculate_player_dvp_ratings\<close> stores is between 1 and 10 and a whole
  number of tenths.
\<close>

theorem dvp_ratings_in_range:
  "(rank_to_rating i n = Inr r \<longrightarrow> 1 \<le> r \<and> r \<le> 10) \<and>
   (create_dvp_team_ratings stats = Inr ratings \<and> ratings k = Some t \<longrightarrow>
      1 \<le> rating t \<and> rating t \<le> 10) \<and>
   (calculate_player_dvp_ratings player_to_position player_data k' = Some m \<longrightarrow>
      1 \<le> matchup_rating m \<and> matchup_rating m \<le> 10 \<and>
      (\<exists>z :: int. matchup_rating m = of_int z / 10))"
proof -
  have "rank_to_rating i n = Inr r \<longrightarrow> 1 \<le> r \<and> r \<le> 10"
    using rank_to_rating_range [of i n r] by (rule impI)
  moreover have "create_dvp_team_ratings stats = Inr ratings \<and> ratings k = Some t \<longrightarrow>
      1 \<le> rating t \<and> rating t \<le> 10"
    using create_dvp_team_ratings_range [of stats ratings k t] by simp
  moreover have "calculate_player_dvp_ratings player_to_position player_data k' = Some m \<longrightarrow>
      1 \<le> matchup_rating m \<and> matchup_rating m \<le> 10 \<and>
      (\<exists>z :: int. matchup_rating m = of_int z / 10)"
  proof
    assume "calculate_player_dvp_ratings player_to_position player_data k' = Some m"
    then have "matchup_ok m"
      by (rule calculate_player_dvp_ratings_ok)
    then show "1 \<le> matchup_rating m \<and> matchup_rating m \<le> 10 \<and>
        (\<exists>z :: int. matchup_rating m = of_int z / 10)"
      by (simp add: matchup_ok_def)
  qed
  ultimately show ?thesis
    by (intro conjI)
qed

theorem dvp_ratings_in_range_witness:
  "(\<exists>ratings t. create_dvp_team_ratings six_teams = Inr ratings \<and>
      ratings (''Carlton'', Forward) = Some t \<and> rating t = 7 \<and>
      1 \<le> rating t \<and> rating t \<le> 10) \<and>
   (\<exists>m. calculate_player_dvp_ratings Map.empty carlton_matchups (''Nick Daicos'', ''Geelong'') =
          Some m \<and>
      matchup_rating m = 9.1 \<and> 1 \<le> matchup_rating m \<and> matchup_rating m \<le> 10)"
proof -
  from six_teams_carlton obtain ratings t where
    run: "create_dvp_team_ratings six_teams = Inr ratings"
    and t: "ratings (''Carlton'', Forward) = Some t" and seven: "rating t = 7"
    by (auto simp: team_rating_of_def split: sum.splits)
  define m :: player_matchup where
    "m = \<lparr>matchup_rating = 9.1, avg_points = 112.5, games_played = 4, consistency = 0.86,
            matchup_position = None\<rparr>"
  have daicos:
    "calculate_player_dvp_ratings Map.empty carlton_matchups (''Nick Daicos'', ''Geelong'') =
       Some m"
    unfolding m_def by (rule carlton_matchups_daicos)
  have nine: "matchup_rating m = 9.1"
    by (simp add: m_def)
  from dvp_ratings_in_range
    [of 3 5 7 six_teams ratings "(''Carlton'', Forward)" t Map.empty carlton_matchups
      "(''Nick Daicos'', ''Geelong'')" m]
  have "1 \<le> rating t \<and> rating t \<le> 10" and "1 \<le> matchup_rating m \<and> matchup_rating m \<le> 10"
    using run t daicos by simp_all
  with run t seven daicos nine show ?thesis
    by blast
qed

section \<open>Properties of the consolidator\<close>

lemma has_sources_store:
  "field \<noteq> ''data_sources'' \<Longrightarrow> has_sources (store_value field source v prof) = has_sources prof"
  by (auto simp: has_sources_def store_value_def Let_def split: option.splits pyval.splits)

lemma csv_effect_shape:
  "(\<And>k. map_option has_sources (s k) = map_option has_sources (s' k)) \<Longrightarrow>
   csv_effect s rows = csv_effect s' rows"
proof (induction rows)
  case Nil
  then show ?case by simp
next
  case (Cons row rows)
  let ?n = "normalize_name (Player row)"
  from Cons.prems have here: "map_option has_sources (s ?n) = map_option has_sources (s' ?n)" .
  from Cons.IH [OF Cons.prems] have rest: "csv_effect s rows = csv_effect s' rows" .
  show ?case
  proof (cases "s ?n")
    case None
    with here have "s' ?n = None"
      by simp
    with None rest show ?thesis
      by simp
  next
    case (Some prof)
    with here obtain prof' where s': "s' ?n = Some prof'" and "has_sources prof' = has_sources prof"
      by (cases "s' ?n") auto
    with Some rest show ?thesis
      by (simp split: option.splits)
  qed
qed

lemma merge_csv_rows_effect:
  assumes "field \<noteq> ''data_sources''"
  shows "merge_csv_rows field source rows s = apply_stores field source (csv_effect s rows) s"
proof (induction rows arbitrary: s)
  case Nil
  then show ?case by simp
next
  case (Cons row rows)
  let ?n = "normalize_name (Player row)"
  show ?case
  proof (cases "s ?n")
    case None
    then show ?thesis
      by (simp add: Cons.IH)
  next
    case (Some prof)
    show ?thesis
    proof (cases "float_of (column_value row)")
      case None
      with Some show ?thesis
        by simp
    next
      case v: (Some v)
      let ?s' = "s(?n \<mapsto> store_value field source v prof)"
      show ?thesis
      proof (cases "has_sources prof")
        case False
        then have "merge_csv_rows field source (row # rows) s = ?s'"
          using Some v assms
          by (auto simp: has_sources_def store_value_def Let_def
              split: option.splits pyval.splits)
        with False Some v show ?thesis
          by simp
      next
        case True
        then have step: "merge_csv_rows field source (row # rows) s =
            merge_csv_rows field source rows ?s'"
          using Some v assms
          by (auto simp: has_sources_def store_value_def Let_def
              split: option.splits pyval.splits)
        have "map_option has_sources (?s' k) = map_option has_sources (s k)" for k
          using Some has_sources_store [OF assms] by simp
        then have eff: "csv_effect ?s' rows = csv_effect s rows"
          by (rule csv_effect_shape)
        note step
        also have "merge_csv_rows field source rows ?s' =
            apply_stores field source (csv_effect ?s' rows) ?s'"
          by (rule Cons.IH)
        also have "\<dots> = apply_stores field source (csv_effect s rows) ?s'"
          by (simp only: eff)
        also have "\<dots> = apply_stores field source (csv_effect s (row # rows)) s"
          using True Some v by simp
        finally show ?thesis .
      qed
    qed
  qed
qed

lemma store_value_twice:
  "field \<noteq> ''data_sources'' \<Longrightarrow>
   store_value field source w (store_value field source v prof) = store_value field source w prof"
  by (auto simp: store_value_def Let_def fun_eq_iff split: option.splits pyval.splits)

lemma apply_stores_lookup:
  assumes "field \<noteq> ''data_sources''"
  shows "apply_stores field source es s k =
     map_option (\<lambda>prof. case last_value es k of
                           None \<Rightarrow> prof
                         | Some v \<Rightarrow> store_value field source v prof) (s k)"
proof (induction es arbitrary: s)
  case Nil
  then show ?case
    by (simp add: option.map_ident)
next
  case (Cons e es)
  obtain n v where e: "e = (n, v)"
    by (cases e)
  show ?case
  proof (cases "s n")
    case None
    then show ?thesis
      by (cases "n = k") (simp_all add: e Cons.IH split: option.splits)
  next
    case (Some prof)
    show ?thesis
    proof (cases "n = k")
      case True
      with Some show ?thesis
        by (simp add: e Cons.IH store_value_twice [OF assms] split: option.splits)
    next
      case False
      with Some show ?thesis
        by (simp add: e Cons.IH split: option.splits)
    qed
  qed
qed

lemma merge_csv_rows_lookup:
  assumes "field \<noteq> ''data_sources''"
  shows "merge_csv_rows field source rows s k =
     map_option (\<lambda>prof. case last_value (csv_effect s rows) k of
                           None \<Rightarrow> prof
                         | Some v \<Rightarrow> store_value field source v prof) (s k)"
  by (simp only: merge_csv_rows_effect [OF assms] apply_stores_lookup [OF assms])

lemma merge_csv_rows_shape:
  assumes "field \<noteq> ''data_sources''"
  shows "map_option has_sources (merge_csv_rows field source rows s k) =
     map_option has_sources (s k)"
  by (cases "s k")
    (simp_all add: merge_csv_rows_lookup [OF assms] has_sources_store [OF assms]
      split: option.splits)

lemma csv_effect_merge_csv_rows:
  assumes "field \<noteq> ''data_sources''"
  shows "csv_effect (merge_csv_rows field source rows s) rows' = csv_effect s rows'"
  by (rule csv_effect_shape) (rule merge_csv_rows_shape [OF assms])

lemma absorbed_store:
  "field \<noteq> ''data_sources'' \<Longrightarrow> absorbed field source v (store_value field source v prof)"
  by (auto simp: absorbed_def store_value_def Let_def split: option.splits pyval.splits)

lemma store_absorbed:
  assumes "absorbed field source v prof"
  shows "store_value field source v prof = prof"
proof -
  from assms have "prof(field \<mapsto> Num v) = prof"
    by (auto simp: absorbed_def)
  with assms show ?thesis
    by (auto simp: absorbed_def store_value_def Let_def split: option.splits pyval.splits)
qed

lemma absorbed_other_store:
  assumes "absorbed field source v prof" and "field' \<noteq> field" and "field' \<noteq> ''data_sources''"
    and "field \<noteq> ''data_sources''"
  shows "absorbed field source v (store_value field' source' w prof)"
  using assms
  by (auto simp: absorbed_def store_value_def Let_def split: option.splits pyval.splits)

lemma merge_csv_data_rows:
  "merge_csv_data cba_rows kickins_rows s =
     merge_csv_rows ''kick_ins'' ''csv_kickins'' (rows_of kickins_rows)
       (merge_csv_rows ''cba_percentage'' ''csv_cba'' (rows_of cba_rows) s)"
  by (simp add: merge_csv_data_def rows_of_def split: option.splits)

text \<open>
  The sibling path: \<^verbatim>\<open>merge_csv_data\<close> checks for the source before it appends, and
  merging the same files a second time changes nothing.
\<close>

lemma merge_csv_data_idempotent:
  "merge_csv_data cba_rows kickins_rows (merge_csv_data cba_rows kickins_rows s) =
   merge_csv_data cba_rows kickins_rows s"
proof
  fix k
  let ?C = "merge_csv_rows ''cba_percentage'' ''csv_cba'' (rows_of cba_rows)"
  let ?K = "merge_csv_rows ''kick_ins'' ''csv_kickins'' (rows_of kickins_rows)"
  have c: "''cba_percentage'' \<noteq> ''data_sources''" and k: "''kick_ins'' \<noteq> ''data_sources''"
    and ck: "''kick_ins'' \<noteq> ''cba_percentage''"
    by simp_all
  define lc where "lc = last_value (csv_effect s (rows_of cba_rows)) k"
  define lk where "lk = last_value (csv_effect s (rows_of kickins_rows)) k"
  define gc where "gc = (\<lambda>prof. case lc of None \<Rightarrow> prof
     | Some v \<Rightarrow> store_value ''cba_percentage'' ''csv_cba'' v prof)"
  define gk where "gk = (\<lambda>prof. case lk of None \<Rightarrow> prof
     | Some v \<Rightarrow> store_value ''kick_ins'' ''csv_kickins'' v prof)"
  have C: "?C x k = map_option gc (x k)" if "csv_effect x (rows_of cba_rows) =
      csv_effect s (rows_of cba_rows)" for x
    by (simp add: merge_csv_rows_lookup [OF c] that gc_def lc_def)
  have K: "?K x k = map_option gk (x k)" if "csv_effect x (rows_of kickins_rows) =
      csv_effect s (rows_of kickins_rows)" for x
    by (simp add: merge_csv_rows_lookup [OF k] that gk_def lk_def)
  have e1: "csv_effect (?C s) rows = csv_effect s rows" for rows
    by (rule csv_effect_merge_csv_rows [OF c])
  have e2: "csv_effect (?K (?C s)) rows = csv_effect s rows" for rows
    by (simp only: csv_effect_merge_csv_rows [OF k] e1)
  have e3: "csv_effect (?C (?K (?C s))) rows = csv_effect s rows" for rows
    by (simp only: csv_effect_merge_csv_rows [OF c] e2)
  have once: "?K (?C s) k = map_option (gk \<circ> gc) (s k)"
    by (simp add: K [OF e1] C [OF refl] option.map_comp)
  have twice: "?K (?C (?K (?C s))) k = map_option (gk \<circ> gc \<circ> gk \<circ> gc) (s k)"
    by (simp add: K [OF e3] C [OF e2] K [OF e1] C [OF refl] option.map_comp comp_assoc)
  have gkk: "gk (gk prof) = gk prof" for prof
    by (simp add: gk_def store_value_twice [OF k] split: option.splits)
  have gckc: "gc (gk (gc prof)) = gk (gc prof)" for prof
  proof (cases lc)
    case None
    then show ?thesis
      by (simp add: gc_def)
  next
    case (Some v)
    have "absorbed ''cba_percentage'' ''csv_cba'' v (gc prof)"
      by (simp add: gc_def Some absorbed_store [OF c])
    then have "absorbed ''cba_percentage'' ''csv_cba'' v (gk (gc prof))"
      by (cases lk) (simp_all add: gk_def absorbed_other_store [OF _ ck k c])
    then have "store_value ''cba_percentage'' ''csv_cba'' v (gk (gc prof)) = gk (gc prof)"
      by (rule store_absorbed)
    then show ?thesis
      by (simp add: gc_def Some)
  qed
  have "(gk \<circ> gc \<circ> gk \<circ> gc) prof = (gk \<circ> gc) prof" for prof
    by (simp add: gckc gkk)
  then have "map_option (gk \<circ> gc \<circ> gk \<circ> gc) (s k) = map_option (gk \<circ> gc) (s k)"
    by (cases "s k") simp_all
  then show "merge_csv_data cba_rows kickins_rows (merge_csv_data cba_rows kickins_rows s) k =
      merge_csv_data cba_rows kickins_rows s k"
    by (simp only: merge_csv_data_rows once twice)
qed

lemma normalize_daicos: "normalize_name ''Nick Daicos'' = ''nick daicos''"
  by code_simp

lemma base_profile_sources:
  "base_profile player ''data_sources'' = Some (StrList [''player_data.json''])"
  by (simp add: base_profile_def)

lemma daicos_loaded:
  "load_base_player_data [daicos_base] = [''nick daicos'' \<mapsto> base_profile daicos_base]"
  by (simp add: load_base_player_data_def daicos_base_def normalize_daicos)

lemma csv_reapplied:
  "data_sources_of
     (merge_csv_data (Some [daicos_cba]) None
        (merge_csv_data (Some [daicos_cba]) None (load_base_player_data [daicos_base])))
     ''nick daicos'' = Some [''player_data.json'', ''csv_cba'']"
  unfolding merge_csv_data_idempotent
  by (simp add: merge_csv_data_def daicos_loaded daicos_cba_def normalize_daicos
      float_of_def base_profile_sources data_sources_of_def)

text \<open>
  A row of the metrics file whose player is known, whose three numbers convert and whose
  profile has a list of sources always appends \<^verbatim>\<open>'fantasy_metrics'\<close>, whether the list
  has it already or not.
\<close>

lemma merge_fantasy_metrics_appends:
  assumes "stats (normalize_name (metrics_name row)) = Some prof"
    and "prof ''data_sources'' = Some (StrList sources)"
    and "float_of (own row) \<noteq> None" and "float_of (con row) \<noteq> None"
    and "float_of (ppm row) \<noteq> None"
  shows "data_sources_of (merge_fantasy_metrics (Some [row]) stats)
           (normalize_name (metrics_name row)) = Some (sources @ [''fantasy_metrics''])"
  using assms
  by (auto simp: merge_fantasy_metrics_def data_sources_of_def append_source_def Let_def)

text \<open>
  C2 fails on the code. Merging the same metrics record for the same player a second time
  appends the source identifier \<^verbatim>\<open>'fantasy_metrics'\<close> again: the list of sources grows
  from two entries to three, and the consolidated profiles differ.
\<close>

theorem fantasy_metrics_reapplied:
  "data_sources_of
     (merge_fantasy_metrics (Some [daicos_metrics]) (load_base_player_data [daicos_base]))
     ''nick daicos'' = Some [''player_data.json'', ''fantasy_metrics''] \<and>
   data_sources_of
     (merge_fantasy_metrics (Some [daicos_metrics])
        (merge_fantasy_metrics (Some [daicos_metrics]) (load_base_player_data [daicos_base])))
     ''nick daicos'' = Some [''player_data.json'', ''fantasy_metrics'', ''fantasy_metrics''] \<and>
   merge_fantasy_metrics (Some [daicos_metrics])
     (merge_fantasy_metrics (Some [daicos_metrics]) (load_base_player_data [daicos_base])) \<noteq>
   merge_fantasy_metrics (Some [daicos_metrics]) (load_base_player_data [daicos_base])"
proof -
  let ?once = "merge_fantasy_metrics (Some [daicos_metrics]) (load_base_player_data [daicos_base])"
  let ?twice = "merge_fantasy_metrics (Some [daicos_metrics]) ?once"
  have once: "data_sources_of ?once ''nick daicos'' =
      Some [''player_data.json'', ''fantasy_metrics'']"
    by (simp add: merge_fantasy_metrics_def daicos_loaded daicos_metrics_def normalize_daicos
        float_of_def append_source_def base_profile_sources data_sources_of_def)
  have twice: "data_sources_of ?twice ''nick daicos'' =
      Some [''player_data.json'', ''fantasy_metrics'', ''fantasy_metrics'']"
    by (simp add: merge_fantasy_metrics_def daicos_loaded daicos_metrics_def normalize_daicos
        float_of_def append_source_def base_profile_sources data_sources_of_def)
  have "?twice \<noteq> ?once"
  proof
    assume "?twice = ?once"
    then have "data_sources_of ?twice ''nick daicos'' = data_sources_of ?once ''nick daicos''"
      by (rule arg_cong)
    then show False
      unfolding once twice by simp
  qed
  with once twice show ?thesis
    by (intro conjI)
qed

end
